theory Spec2Isabelle
  imports Main
begin

section \<open>Python values used by promote.py\<close>

text \<open>
  The script \<^verbatim>\<open>src/promote.py\<close> works on Python strings, calls the third-party
  package \<^verbatim>\<open>semver\<close> (python-semver, 2.x interface: \<^verbatim>\<open>parse_version_info\<close>,
  \<^verbatim>\<open>VersionInfo\<close>, \<^verbatim>\<open>bump_*\<close>, \<^verbatim>\<open>finalize_version\<close>), runs \<^verbatim>\<open>git\<close> through
  \<^verbatim>\<open>subprocess\<close> and talks to the GitHub releases API through \<^verbatim>\<open>requests\<close>.
  Strings are \<^typ>\<open>string\<close>; exceptions and \<^verbatim>\<open>exit(n)\<close> are values.
\<close>

datatype exn =
    ValueError string
  | AttributeError string
  | KeyError string
  | CalledProcessError nat "string list"
  | HTTPError nat
  | OSError string

abbreviation nl :: char where
  "nl \<equiv> CHR 0x0A"

definition is_digit :: "char \<Rightarrow> bool" where
  "is_digit c = (c \<in> set ''0123456789'')"

definition is_ident_char :: "char \<Rightarrow> bool" where
  "is_ident_char c =
     (c \<in> set ''0123456789ABCDEFGHIJKLMNOPQRSTUVWXYZabcdefghijklmnopqrstuvwxyz-'')"

text \<open>\<^verbatim>\<open>s.split(sep)\<close> for a one-character separator.\<close>

fun split_on :: "char \<Rightarrow> string \<Rightarrow> string list" where
  "split_on sep [] = [[]]"
| "split_on sep (c # cs) =
     (if c = sep then [] # split_on sep cs
      else (case split_on sep cs of p # ps \<Rightarrow> (c # p) # ps | [] \<Rightarrow> [[c]]))"

text \<open>\<^verbatim>\<open>sep.join(xs)\<close>.\<close>

fun join :: "string \<Rightarrow> string list \<Rightarrow> string" where
  "join sep [] = []"
| "join sep [x] = x"
| "join sep (x # y # ys) = x @ sep @ join sep (y # ys)"

text \<open>\<^verbatim>\<open>int(s)\<close> on a string of decimal digits, and \<^verbatim>\<open>"%d" % n\<close> / \<^verbatim>\<open>str(n)\<close>.\<close>

definition digit_of :: "char \<Rightarrow> nat" where
  "digit_of c = length (takeWhile (\<lambda>d. d \<noteq> c) ''0123456789'')"

definition int_of_str :: "string \<Rightarrow> nat" where
  "int_of_str ds = foldl (\<lambda>n c. 10 * n + digit_of c) 0 ds"

definition digit_char :: "nat \<Rightarrow> char" where
  "digit_char k = ''0123456789'' ! k"

fun str_of_nat :: "nat \<Rightarrow> string" where
  "str_of_nat n =
     (if n < 10 then [digit_char n]
      else str_of_nat (n div 10) @ [digit_char (n mod 10)])"

declare str_of_nat.simps [simp del]

text \<open>Python's \<^verbatim>\<open>cmp\<close> as semver defines it: \<^verbatim>\<open>(a > b) - (a < b)\<close>.\<close>

definition cmp :: "nat \<Rightarrow> nat \<Rightarrow> int" where
  "cmp a b = (if a < b then - 1 else if b < a then 1 else 0)"

text \<open>The same on strings: Python compares them code point by code point.\<close>

fun cmp_str :: "string \<Rightarrow> string \<Rightarrow> int" where
  "cmp_str [] [] = 0"
| "cmp_str [] (y # ys) = - 1"
| "cmp_str (x # xs) [] = 1"
| "cmp_str (x # xs) (y # ys) =
     (if (of_char x :: nat) < of_char y then - 1
      else if (of_char y :: nat) < of_char x then 1
      else cmp_str xs ys)"

text \<open>\<^verbatim>\<open>s.startswith(p)\<close>.\<close>

definition startswith :: "string \<Rightarrow> string \<Rightarrow> bool" where
  "startswith s p = (take (length p) s = p)"

section \<open>The semver package\<close>

text \<open>
  \<^verbatim>\<open>semver.VersionInfo\<close>: major, minor, patch, and the optional prerelease and build
  strings (\<^verbatim>\<open>None\<close> when absent).
\<close>

record version_info =
  major :: nat
  minor :: nat
  patch :: nat
  prerelease :: "string option"
  build :: "string option"

text \<open>
  \<^verbatim>\<open>semver.parse\<close> matches the version against the package's regular expression
  \<^verbatim>\<open>^MAJOR.MINOR.PATCH(-PRERELEASE)?(+BUILD)?$\<close>: the three numbers are \<^verbatim>\<open>0|[1-9][0-9]*\<close>,
  a prerelease identifier is \<^verbatim>\<open>0|[1-9A-Za-z-][0-9A-Za-z-]*\<close>, a build identifier is
  \<^verbatim>\<open>[0-9A-Za-z-]+\<close>, identifiers are separated by dots. Python's \<^verbatim>\<open>$\<close> also matches
  before one final newline. No match raises \<^verbatim>\<open>ValueError\<close>.
\<close>

definition num_ok :: "string \<Rightarrow> bool" where
  "num_ok ds = (ds \<noteq> [] \<and> list_all is_digit ds \<and> (ds = ''0'' \<or> hd ds \<noteq> CHR ''0''))"

definition pre_ident_ok :: "string \<Rightarrow> bool" where
  "pre_ident_ok i = (i = ''0'' \<or> (i \<noteq> [] \<and> hd i \<noteq> CHR ''0'' \<and> list_all is_ident_char i))"

definition build_ident_ok :: "string \<Rightarrow> bool" where
  "build_ident_ok i = (i \<noteq> [] \<and> list_all is_ident_char i)"

definition prerelease_ok :: "string \<Rightarrow> bool" where
  "prerelease_ok p = list_all pre_ident_ok (split_on (CHR ''.'') p)"

definition build_ok :: "string \<Rightarrow> bool" where
  "build_ok b = list_all build_ident_ok (split_on (CHR ''.'') b)"

definition after_first :: "char \<Rightarrow> string \<Rightarrow> string option" where
  "after_first c s = (case dropWhile (\<lambda>d. d \<noteq> c) s of [] \<Rightarrow> None | x # r \<Rightarrow> Some r)"

definition not_semver :: "string \<Rightarrow> exn" where
  "not_semver version = ValueError (version @ '' is not valid SemVer string'')"

definition parse :: "string \<Rightarrow> exn + version_info" where
  "parse version =
     (let s = (if version \<noteq> [] \<and> last version = nl then butlast version else version);
          body = takeWhile (\<lambda>d. d \<noteq> CHR ''+'') s;
          bld = after_first (CHR ''+'') s;
          core = takeWhile (\<lambda>d. d \<noteq> CHR ''-'') body;
          pre = after_first (CHR ''-'') body
      in case split_on (CHR ''.'') core of
           [a, b, c] \<Rightarrow>
             if num_ok a \<and> num_ok b \<and> num_ok c
                \<and> (case pre of None \<Rightarrow> True | Some p \<Rightarrow> prerelease_ok p)
                \<and> (case bld of None \<Rightarrow> True | Some p \<Rightarrow> build_ok p)
             then Inr \<lparr>major = int_of_str a, minor = int_of_str b, patch = int_of_str c,
                       prerelease = pre, build = bld\<rparr>
             else Inl (not_semver version)
         | _ \<Rightarrow> Inl (not_semver version))"

text \<open>\<^verbatim>\<open>semver.parse_version_info\<close> builds the \<^verbatim>\<open>VersionInfo\<close> from the parsed parts.\<close>

definition parse_version_info :: "string \<Rightarrow> exn + version_info" where
  "parse_version_info version = parse version"

text \<open>\<^verbatim>\<open>semver.format_version\<close>; \<^verbatim>\<open>str(VersionInfo)\<close> is \<^verbatim>\<open>format_version(*self)\<close>.\<close>

definition format_version ::
  "nat \<Rightarrow> nat \<Rightarrow> nat \<Rightarrow> string option \<Rightarrow> string option \<Rightarrow> string" where
  "format_version ma mi pa pre bld =
     str_of_nat ma @ ''.'' @ str_of_nat mi @ ''.'' @ str_of_nat pa
     @ (case pre of None \<Rightarrow> [] | Some p \<Rightarrow> ''-'' @ p)
     @ (case bld of None \<Rightarrow> [] | Some b \<Rightarrow> ''+'' @ b)"

definition str_version :: "version_info \<Rightarrow> string" where
  "str_version v = format_version (major v) (minor v) (patch v) (prerelease v) (build v)"

text \<open>
  Ordering, \<^verbatim>\<open>semver._nat_cmp\<close> and \<^verbatim>\<open>semver._compare_by_keys\<close>: numeric prerelease
  identifiers compare as numbers and sort before alphanumeric ones; when the common
  identifiers agree the longer prerelease string is the greater; a version without a
  prerelease is greater than one with, major.minor.patch being equal. The build part is
  not compared.
\<close>

datatype ident = Num nat | Str string

definition convert :: "string \<Rightarrow> ident" where
  "convert t = (if t \<noteq> [] \<and> list_all is_digit t then Num (int_of_str t) else Str t)"

definition split_key :: "string \<Rightarrow> ident list" where
  "split_key k = map convert (split_on (CHR ''.'') k)"

fun cmp_prerelease_tag :: "ident \<Rightarrow> ident \<Rightarrow> int" where
  "cmp_prerelease_tag (Num a) (Num b) = cmp a b"
| "cmp_prerelease_tag (Num a) (Str b) = - 1"
| "cmp_prerelease_tag (Str a) (Num b) = 1"
| "cmp_prerelease_tag (Str a) (Str b) = cmp_str a b"

fun first_nonzero :: "int list \<Rightarrow> int \<Rightarrow> int" where
  "first_nonzero [] d = d"
| "first_nonzero (r # rs) d = (if r \<noteq> 0 then r else first_nonzero rs d)"

definition nat_cmp :: "string option \<Rightarrow> string option \<Rightarrow> int" where
  "nat_cmp a b =
     (let a' = (case a of None \<Rightarrow> [] | Some x \<Rightarrow> x);
          b' = (case b of None \<Rightarrow> [] | Some x \<Rightarrow> x)
      in first_nonzero (map2 cmp_prerelease_tag (split_key a') (split_key b'))
           (cmp (length a') (length b')))"

definition compare_by_keys :: "version_info \<Rightarrow> version_info \<Rightarrow> int" where
  "compare_by_keys d1 d2 =
     (if cmp (major d1) (major d2) \<noteq> 0 then cmp (major d1) (major d2)
      else if cmp (minor d1) (minor d2) \<noteq> 0 then cmp (minor d1) (minor d2)
      else if cmp (patch d1) (patch d2) \<noteq> 0 then cmp (patch d1) (patch d2)
      else (let rccmp = nat_cmp (prerelease d1) (prerelease d2)
            in if rccmp = 0 then 0
               else if prerelease d1 = None \<or> prerelease d1 = Some [] then 1
               else if prerelease d2 = None \<or> prerelease d2 = Some [] then - 1
               else rccmp))"

text \<open>\<^verbatim>\<open>VersionInfo.__gt__\<close>.\<close>

definition version_gt :: "version_info \<Rightarrow> version_info \<Rightarrow> bool" where
  "version_gt a b = (compare_by_keys a b > 0)"

text \<open>
  Python's \<^verbatim>\<open>max(xs)\<close>: the first greatest element, by \<^verbatim>\<open>>\<close>; \<^verbatim>\<open>ValueError\<close> on an
  empty list.
\<close>

definition max_versions :: "version_info list \<Rightarrow> exn + version_info" where
  "max_versions vs =
     (case vs of
        [] \<Rightarrow> Inl (ValueError ''max() arg is an empty sequence'')
      | v # rest \<Rightarrow> Inr (foldl (\<lambda>m x. if version_gt x m then x else m) v rest))"

text \<open>
  \<^verbatim>\<open>semver._increment_string\<close>: the last run of digits in the string is replaced by
  its value plus one, keeping the run's width where the new number is shorter; a string
  without digits is returned as it is.
\<close>

definition increment_string :: "string \<Rightarrow> string" where
  "increment_string s =
     (let r = rev s;
          suffix = rev (takeWhile (\<lambda>c. \<not> is_digit c) r);
          r1 = dropWhile (\<lambda>c. \<not> is_digit c) r;
          digits = rev (takeWhile is_digit r1);
          before = rev (dropWhile is_digit r1);
          next = str_of_nat (int_of_str digits + 1)
      in if digits = [] then s
         else before @ take (length digits - length next) digits @ next @ suffix)"

text \<open>The bump functions and \<^verbatim>\<open>finalize_version\<close>; each parses its argument first.\<close>

definition bump_major :: "string \<Rightarrow> exn + string" where
  "bump_major version =
     (case parse version of Inl e \<Rightarrow> Inl e
      | Inr v \<Rightarrow> Inr (format_version (major v + 1) 0 0 None None))"

definition bump_minor :: "string \<Rightarrow> exn + string" where
  "bump_minor version =
     (case parse version of Inl e \<Rightarrow> Inl e
      | Inr v \<Rightarrow> Inr (format_version (major v) (minor v + 1) 0 None None))"

definition bump_patch :: "string \<Rightarrow> exn + string" where
  "bump_patch version =
     (case parse version of Inl e \<Rightarrow> Inl e
      | Inr v \<Rightarrow> Inr (format_version (major v) (minor v) (patch v + 1) None None))"

definition bump_prerelease :: "string \<Rightarrow> string \<Rightarrow> exn + string" where
  "bump_prerelease version token =
     (case parse version of Inl e \<Rightarrow> Inl e
      | Inr v \<Rightarrow>
          Inr (format_version (major v) (minor v) (patch v)
                 (Some (increment_string
                    (case prerelease v of
                       Some p \<Rightarrow> if p \<noteq> [] then p else (if token \<noteq> [] then token else ''rc'') @ ''.0''
                     | None \<Rightarrow> (if token \<noteq> [] then token else ''rc'') @ ''.0'')))
                 None))"

definition finalize_version :: "string \<Rightarrow> exn + string" where
  "finalize_version version =
     (case parse version of Inl e \<Rightarrow> Inl e
      | Inr v \<Rightarrow> Inr (format_version (major v) (minor v) (patch v) None None))"


text \<open>
  \<^verbatim>\<open>semver.bump_build\<close>, which \<^verbatim>\<open>getattr(semver, "bump_" + kind)\<close> also finds.
\<close>

definition bump_build :: "string \<Rightarrow> string \<Rightarrow> exn + string" where
  "bump_build version token =
     (case parse version of Inl e \<Rightarrow> Inl e
      | Inr v \<Rightarrow>
          Inr (format_version (major v) (minor v) (patch v) (prerelease v)
                 (Some (increment_string
                    (case build v of
                       Some p \<Rightarrow> if p \<noteq> [] then p else (if token \<noteq> [] then token else ''build'') @ ''.0''
                     | None \<Rightarrow> (if token \<noteq> [] then token else ''build'') @ ''.0'')))))"

section \<open>The process and its environment\<close>

text \<open>
  A call either returns, or leaves through \<^verbatim>\<open>exit(n)\<close>, or raises. The process exit
  status of an uncaught exception is 1.
\<close>

datatype 'a result = Return 'a | Exit nat | Raise exn

fun exit_status :: "'a result \<Rightarrow> nat" where
  "exit_status (Return x) = 0"
| "exit_status (Exit n) = n"
| "exit_status (Raise e) = 1"

text \<open>What \<^verbatim>\<open>argparse\<close> leaves in \<^verbatim>\<open>cmd_args\<close>.\<close>

record cmd_args =
  stage :: string
  release :: string
  force :: bool
  release_notes :: "string option"
  dry_run :: bool
  path :: string

text \<open>
  The command line as given: the positional stage and, for each option, whether and
  with which value it was written.
\<close>

record argv =
  arg_stage :: string
  arg_release :: "string option"
  arg_force :: bool
  arg_release_notes :: "string option"
  arg_dry_run :: bool
  arg_path :: "string option"

text \<open>\<^verbatim>\<open>release_config.json\<close>: the repository and, per stage, the branches.\<close>

record stage_config =
  source :: string
  destination :: string
  stage_prerelease :: bool

record config =
  repository :: string
  release_map :: "(string \<times> stage_config) list"

text \<open>A release as the GitHub API lists it (only the tag is read).\<close>

record release_entry =
  tag_name :: string

text \<open>The JSON body of the release-creation request.\<close>

record release_body =
  body_tag_name :: string
  body_name :: string
  body_prerelease :: bool
  body_draft :: bool
  body_target_commitish :: string
  body_body :: string

text \<open>
  Everything outside the script is a parameter: running a process (return code,
  stdout, stderr), the file system, the process environment, and the two HTTP calls.
  \<^typ>\<open>'w\<close> is the state of that outside world.
\<close>

record 'w env =
  run_process :: "string list \<Rightarrow> 'w \<Rightarrow> (nat \<times> string \<times> string) \<times> 'w"
  change_dir :: "string \<Rightarrow> 'w \<Rightarrow> exn option \<times> 'w"
  load_config :: "'w \<Rightarrow> exn + config"
  getenv :: "'w \<Rightarrow> string \<Rightarrow> string option"
  read_file :: "'w \<Rightarrow> string \<Rightarrow> exn + string"
  get_secret :: "'w \<Rightarrow> string \<Rightarrow> exn + string"
  write_file :: "string \<Rightarrow> string \<Rightarrow> 'w \<Rightarrow> exn option \<times> 'w"
  http_get :: "'w \<Rightarrow> string \<Rightarrow> exn + release_entry list"
  http_post :: "string \<Rightarrow> string \<Rightarrow> release_body \<Rightarrow> 'w \<Rightarrow> (exn + nat) \<times> 'w"

text \<open>What the process did, in order.\<close>

datatype event =
    Print string
  | Run "string list" nat string string
  | Chdir string
  | Get string
  | Post string string release_body
  | Write string string

record 'w state =
  world :: 'w
  trace :: "event list"

type_synonym ('a, 'w) prog = "'w state \<Rightarrow> 'a result \<times> 'w state"

definition ret :: "'a \<Rightarrow> ('a, 'w) prog" where
  "ret x st = (Return x, st)"

definition exit :: "nat \<Rightarrow> ('a, 'w) prog" where
  "exit n st = (Exit n, st)"

definition raise :: "exn \<Rightarrow> ('a, 'w) prog" where
  "raise e st = (Raise e, st)"

definition lift :: "exn + 'a \<Rightarrow> ('a, 'w) prog" where
  "lift r st = (case r of Inl e \<Rightarrow> (Raise e, st) | Inr x \<Rightarrow> (Return x, st))"

text \<open>Sequencing: the next statement runs only when the previous one returned.\<close>

definition bnd :: "('a, 'w) prog \<Rightarrow> ('a \<Rightarrow> ('b, 'w) prog) \<Rightarrow> ('b, 'w) prog" where
  "bnd p f st =
     (case p st of
        (Return x, st') \<Rightarrow> f x st'
      | (Exit n, st') \<Rightarrow> (Exit n, st')
      | (Raise e, st') \<Rightarrow> (Raise e, st'))"

definition emit :: "event \<Rightarrow> 'w state \<Rightarrow> 'w state" where
  "emit e st = st\<lparr>trace := trace st @ [e]\<rparr>"

definition print :: "string \<Rightarrow> (unit, 'w) prog" where
  "print s st = (Return (), emit (Print s) st)"

definition run :: "'w env \<Rightarrow> string list \<Rightarrow> (nat \<times> string \<times> string, 'w) prog" where
  "run env args st =
     (case run_process env args (world st) of
        ((rc, out, err), w) \<Rightarrow> (Return (rc, out, err), emit (Run args rc out err) (st\<lparr>world := w\<rparr>)))"

definition chdir :: "'w env \<Rightarrow> string \<Rightarrow> (unit, 'w) prog" where
  "chdir env p st =
     (case change_dir env p (world st) of
        (None, w) \<Rightarrow> (Return (), emit (Chdir p) (st\<lparr>world := w\<rparr>))
      | (Some e, w) \<Rightarrow> (Raise e, st\<lparr>world := w\<rparr>))"

definition fwrite :: "'w env \<Rightarrow> string \<Rightarrow> string \<Rightarrow> (unit, 'w) prog" where
  "fwrite env p content st =
     (case write_file env p content (world st) of
        (None, w) \<Rightarrow> (Return (), emit (Write p content) (st\<lparr>world := w\<rparr>))
      | (Some e, w) \<Rightarrow> (Raise e, st\<lparr>world := w\<rparr>))"

definition get :: "'w env \<Rightarrow> string \<Rightarrow> (release_entry list, 'w) prog" where
  "get env url st =
     (case http_get env (world st) url of
        Inl e \<Rightarrow> (Raise e, emit (Get url) st)
      | Inr rs \<Rightarrow> (Return rs, emit (Get url) st))"

definition post :: "'w env \<Rightarrow> string \<Rightarrow> string \<Rightarrow> release_body \<Rightarrow> (nat, 'w) prog" where
  "post env url auth b st =
     (case http_post env url auth b (world st) of
        (Inl e, w) \<Rightarrow> (Raise e, emit (Post url auth b) (st\<lparr>world := w\<rparr>))
      | (Inr code, w) \<Rightarrow> (Return code, emit (Post url auth b) (st\<lparr>world := w\<rparr>)))"

section \<open>promote.py\<close>

text \<open>
  Lines 22 to 44: \<^verbatim>\<open>--release\<close> has four choices and the default
  \<^verbatim>\<open>"prerelease"\<close>; a value outside the choices makes \<^verbatim>\<open>argparse\<close> print its usage
  and exit with status 2. \<^verbatim>\<open>--path\<close> defaults to the empty string, \<^verbatim>\<open>--release-notes\<close>
  to \<^verbatim>\<open>None\<close>.
\<close>

definition choices :: "string list" where
  "choices = [''major'', ''minor'', ''patch'', ''prerelease'']"

definition parse_args :: "argv \<Rightarrow> (cmd_args, 'w) prog" where
  "parse_args a =
     (case arg_release a of
        Some r \<Rightarrow>
          if r \<in> set choices
          then ret \<lparr>stage = arg_stage a, release = r, force = arg_force a,
                    release_notes = arg_release_notes a, dry_run = arg_dry_run a,
                    path = (case arg_path a of None \<Rightarrow> [] | Some p \<Rightarrow> p)\<rparr>
          else exit 2
      | None \<Rightarrow>
          ret \<lparr>stage = arg_stage a, release = ''prerelease'', force = arg_force a,
               release_notes = arg_release_notes a, dry_run = arg_dry_run a,
               path = (case arg_path a of None \<Rightarrow> [] | Some p \<Rightarrow> p)\<rparr>)"

text \<open>Lines 62 to 70, \<^verbatim>\<open>_subprocess\<close>: \<^verbatim>\<open>check=True\<close> raises on a non-zero return code.\<close>

definition subprocess :: "'w env \<Rightarrow> string list \<Rightarrow> (string, 'w) prog" where
  "subprocess env args =
     bnd (print (''RUN: '' @ join '' '' args)) (\<lambda>_.
     bnd (run env args) (\<lambda>(rc, out, err).
       if rc \<noteq> 0 then raise (CalledProcessError rc args)
       else
         bnd (if out \<noteq> [] then print (''RUN STDOUT:'' @ [nl] @ out) else ret ()) (\<lambda>_.
         bnd (if err \<noteq> [] then print (''RUN STDERR:'' @ [nl] @ err) else ret ()) (\<lambda>_.
         bnd (print [nl]) (\<lambda>_.
         ret out)))))"

text \<open>Lines 73 to 100.\<close>

definition check_diff_cmd :: "string \<Rightarrow> string \<Rightarrow> string list" where
  "check_diff_cmd src dst =
     [''git'', ''--no-pager'', ''log'', ''--graph'', ''--abbrev-commit'', ''--pretty=oneline'',
      ''--no-merges'', ''--'', src, ''^'' @ dst]"

definition check_diff :: "'w env \<Rightarrow> cmd_args \<Rightarrow> string \<Rightarrow> string \<Rightarrow> (unit, 'w) prog" where
  "check_diff env cmd_args src dst =
     bnd (subprocess env (check_diff_cmd src dst)) (\<lambda>result.
       if result \<noteq> [] then
         bnd (print (''Warning: the following commits are present on '' @ dst
                     @ '' but not on '' @ src @ '': '' @ [nl] @ result)) (\<lambda>_.
         if force cmd_args
         then print (''Warning: they will be overwritten on '' @ dst @ '' and discarded.'')
         else
           bnd (print (''Warning: run with --force to overwrite and discard these commits from ''
                       @ dst)) (\<lambda>_.
           exit 1))
       else ret ())"

text \<open>Lines 103 to 112.\<close>

definition working_tree_cmd :: "string list" where
  "working_tree_cmd = [''git'', ''--no-pager'', ''diff'', ''--ignore-submodules=untracked'']"

definition check_working_tree :: "'w env \<Rightarrow> (unit, 'w) prog" where
  "check_working_tree env =
     bnd (subprocess env working_tree_cmd) (\<lambda>result.
       if result \<noteq> [] then
         bnd (print result) (\<lambda>_.
         bnd (print (''Warning: Working tree contains changes to tracked files. ''
                     @ ''Please commit or discard your changes and try again.'')) (\<lambda>_.
         exit 1))
       else ret ())"

text \<open>
  Lines 129 to 143: one bullet per line of the log, the first and the last character
  of each line (the quotes of the format) dropped by \<^verbatim>\<open>i[1:-1]\<close>.
\<close>

definition release_notes_cmd :: "string \<Rightarrow> string \<Rightarrow> string list" where
  "release_notes_cmd src dst =
     [''git'', ''log'', ''--pretty=format:'' @ [CHR 0x22] @ ''%s'' @ [CHR 0x22],
      ''origin/'' @ src @ ''...origin/'' @ dst]"

definition bullets :: "string \<Rightarrow> string" where
  "bullets result = join [nl] (map (\<lambda>i. ''- '' @ butlast (tl i)) (split_on nl result))"

definition make_release_notes ::
  "'w env \<Rightarrow> cmd_args \<Rightarrow> string \<Rightarrow> string \<Rightarrow> (string, 'w) prog" where
  "make_release_notes env cmd_args src dst =
     bnd (subprocess env (release_notes_cmd src dst)) (\<lambda>result.
     bnd (case release_notes cmd_args of
            Some p \<Rightarrow> if p \<noteq> [] then fwrite env p (bullets result) else ret ()
          | None \<Rightarrow> ret ()) (\<lambda>_.
     ret (bullets result)))"

text \<open>Lines 146 to 151; each output is printed once more by the caller's \<^verbatim>\<open>print\<close>.\<close>

definition push_cmd :: "string \<Rightarrow> string list" where
  "push_cmd dst = [''git'', ''push'', ''--force'', ''origin'', dst]"

definition commit :: "'w env \<Rightarrow> string \<Rightarrow> string \<Rightarrow> string \<Rightarrow> string \<Rightarrow> (unit, 'w) prog" where
  "commit env token repo src dst =
     bnd (subprocess env [''git'', ''remote'', ''set-url'', ''origin'',
                          ''https://'' @ token @ ''@github.com/'' @ repo @ ''.git'']) (\<lambda>o1.
     bnd (print o1) (\<lambda>_.
     bnd (subprocess env [''git'', ''-c'', ''advice.detachedHead=false'', ''checkout'',
                          ''origin/'' @ src]) (\<lambda>o2.
     bnd (print o2) (\<lambda>_.
     bnd (subprocess env [''git'', ''checkout'', ''-B'', dst]) (\<lambda>o3.
     bnd (print o3) (\<lambda>_.
     bnd (subprocess env (push_cmd dst)) (\<lambda>o4.
     print o4)))))))"

text \<open>Lines 153 to 174.\<close>

fun comprehension ::
  "(version_info \<Rightarrow> bool) \<Rightarrow> release_entry list \<Rightarrow> exn + version_info list" where
  "comprehension keep [] = Inr []"
| "comprehension keep (r # rs) =
     (case parse_version_info (tag_name r) of
        Inl e \<Rightarrow> Inl e
      | Inr v \<Rightarrow>
          (case comprehension keep rs of
             Inl e \<Rightarrow> Inl e
           | Inr vs \<Rightarrow> Inr (if keep v then v # vs else vs)))"

definition is_rc :: "version_info \<Rightarrow> bool" where
  "is_rc v = (case prerelease v of None \<Rightarrow> False | Some p \<Rightarrow> p \<noteq> [] \<and> startswith p ''rc'')"

definition no_prerelease :: "version_info \<Rightarrow> bool" where
  "no_prerelease v = (case prerelease v of None \<Rightarrow> True | Some p \<Rightarrow> p = [])"

definition releases_url :: "string \<Rightarrow> string" where
  "releases_url repo = ''https://api.github.com/repos/'' @ repo @ ''/releases''"

definition zero_version :: version_info where
  "zero_version = \<lparr>major = 0, minor = 0, patch = 0, prerelease = None, build = None\<rparr>"

definition current_of :: "string \<Rightarrow> release_entry list \<Rightarrow> exn + string" where
  "current_of stg releases =
     (case (if releases \<noteq> [] \<and> stg = ''staging'' then comprehension is_rc releases
            else if releases \<noteq> [] \<and> stg = ''prod'' then comprehension no_prerelease releases
            else Inr [zero_version]) of
        Inl e \<Rightarrow> Inl e
      | Inr versions \<Rightarrow>
          (case max_versions versions of Inl e \<Rightarrow> Inl e | Inr m \<Rightarrow> Inr (str_version m)))"

definition get_current_version ::
  "'w env \<Rightarrow> cmd_args \<Rightarrow> string \<Rightarrow> string \<Rightarrow> (string, 'w) prog" where
  "get_current_version env cmd_args repo stg =
     bnd (get env (releases_url repo)) (\<lambda>releases.
     lift (current_of (if stg \<noteq> [] then stg else stage cmd_args) releases))"

text \<open>Lines 177 to 201.\<close>

definition bump_by :: "string \<Rightarrow> string \<Rightarrow> exn + string" where
  "bump_by kind version =
     (if kind = ''major'' then bump_major version
      else if kind = ''minor'' then bump_minor version
      else if kind = ''patch'' then bump_patch version
      else if kind = ''prerelease'' then bump_prerelease version ''rc''
      else if kind = ''build'' then bump_build version ''build''
      else Inl (AttributeError (''bump_'' @ kind)))"

definition bumped :: "string \<Rightarrow> string \<Rightarrow> exn + string" where
  "bumped kind cur_version =
     (case bump_by kind cur_version of
        Inl e \<Rightarrow> Inl e
      | Inr new_version \<Rightarrow>
          (case parse_version_info new_version of
             Inl e \<Rightarrow> Inl e
           | Inr v \<Rightarrow>
               if \<not> no_prerelease v then Inr new_version
               else bump_prerelease new_version ''rc''))"

definition update_version ::
  "'w env \<Rightarrow> cmd_args \<Rightarrow> string \<Rightarrow> string \<Rightarrow> string \<Rightarrow> (string, 'w) prog" where
  "update_version env cmd_args repo src dst =
     bnd (get_current_version env cmd_args repo (stage cmd_args)) (\<lambda>cur_version.
     bnd (if src = ''prod''
          then bnd (get_current_version env cmd_args repo dst) (\<lambda>prv_version.
               lift (finalize_version prv_version))
          else lift (bumped (release cmd_args) cur_version)) (\<lambda>new_version.
     if cur_version = new_version
     then bnd (print ''Nothing to promote'') (\<lambda>_. exit 0)
     else bnd (print (''Upgrading: '' @ cur_version @ '' -> '' @ new_version)) (\<lambda>_.
          ret new_version)))"


text \<open>
  Lines 205 to 216: the token comes from \<^verbatim>\<open>GITHUB_TOKEN\<close>, else from the file named by
  \<^verbatim>\<open>GITHUB_TOKEN_PATH\<close> (default \<^verbatim>\<open>promote-token.txt\<close>), else, when that name is the
  string \<^verbatim>\<open>"None"\<close>, from the secret named by \<^verbatim>\<open>GITHUB_TOKEN_SECRET_NAME\<close>.
\<close>

definition is_space :: "char \<Rightarrow> bool" where
  "is_space c = (c \<in> set [CHR 0x09, CHR 0x0A, CHR 0x0B, CHR 0x0C, CHR 0x0D,
                           CHR 0x1C, CHR 0x1D, CHR 0x1E, CHR 0x1F, CHR 0x20])"

definition strip :: "string \<Rightarrow> string" where
  "strip s = rev (dropWhile is_space (rev (dropWhile is_space s)))"

definition resolve_token :: "'w env \<Rightarrow> (string, 'w) prog" where
  "resolve_token env st =
     (let token = (case getenv env (world st) ''GITHUB_TOKEN'' of None \<Rightarrow> [] | Some t \<Rightarrow> t)
      in if token \<noteq> [] then ret token st
         else
           (let token_path =
                  (case getenv env (world st) ''GITHUB_TOKEN_PATH'' of
                     None \<Rightarrow> ''promote-token.txt''
                   | Some p \<Rightarrow> if p \<noteq> [] then p else ''promote-token.txt'')
            in if token_path \<noteq> [] \<and> token_path \<noteq> ''None''
               then bnd (lift (read_file env (world st) token_path)) (\<lambda>t. ret (strip t)) st
               else
                 (case getenv env (world st) ''GITHUB_TOKEN_SECRET_NAME'' of
                    None \<Rightarrow> raise (KeyError ''GITHUB_TOKEN_SECRET_NAME'') st
                  | Some secret_id \<Rightarrow> lift (get_secret env (world st) secret_id) st)))"

text \<open>\<^verbatim>\<open>s.replace(old, "")\<close> for a non-empty \<^verbatim>\<open>old\<close>: every occurrence, left to right.\<close>

fun remove_all :: "string \<Rightarrow> nat \<Rightarrow> string \<Rightarrow> string" where
  "remove_all old k [] = []"
| "remove_all old (Suc k) (c # cs) = remove_all old k cs"
| "remove_all old 0 (c # cs) =
     (if take (length old) (c # cs) = old then remove_all old (length old - 1) cs
      else c # remove_all old 0 cs)"

text \<open>\<^verbatim>\<open>resp.raise_for_status()\<close> raises \<^verbatim>\<open>HTTPError\<close> for the statuses 400 to 599.\<close>

definition raise_for_status :: "nat \<Rightarrow> (unit, 'w) prog" where
  "raise_for_status code = (if 400 \<le> code \<and> code < 600 then raise (HTTPError code) else ret ())"

text \<open>
  The \<^verbatim>\<open>try\<close> of lines 246 to 252: the handler runs for an \<^verbatim>\<open>HTTPError\<close> only, and
  the exception is bound to \<^verbatim>\<open>ex\<close>.
\<close>

definition try_http :: "('a, 'w) prog \<Rightarrow> (exn \<Rightarrow> ('a, 'w) prog) \<Rightarrow> ('a, 'w) prog" where
  "try_http p handler st =
     (case p st of
        (Raise (HTTPError code), st') \<Rightarrow> handler (HTTPError code) st'
      | (r, st') \<Rightarrow> (r, st'))"

text \<open>Lines 204 to 252.\<close>

definition main :: "'w env \<Rightarrow> cmd_args \<Rightarrow> config \<Rightarrow> (unit, 'w) prog" where
  "main env cmd_args config =
     bnd (resolve_token env) (\<lambda>token.
     bnd (case map_of (release_map config) (stage cmd_args) of
            None \<Rightarrow> raise (KeyError (stage cmd_args))
          | Some sc \<Rightarrow> ret sc) (\<lambda>sc.
     let repo = remove_all ''https://github.com/'' 0 (repository config);
         src = source sc;
         dst = destination sc
     in
     bnd (print (''Releasing '' @ src @ '' to '' @ dst @ '' ''
                 @ (if dry_run cmd_args then ''(dry run)'' else []))) (\<lambda>_.
     bnd (check_working_tree env) (\<lambda>_.
     bnd (check_diff env cmd_args src dst) (\<lambda>_.
     bnd (make_release_notes env cmd_args src dst) (\<lambda>notes.
     bnd (update_version env cmd_args repo src dst) (\<lambda>new_version.
     if \<not> dry_run cmd_args then
       bnd (subprocess env [''git'', ''rev-parse'', ''origin/'' @ dst]) (\<lambda>old_branch.
       bnd (commit env token repo src dst) (\<lambda>_.
       bnd (post env (releases_url repo) (''token '' @ token)
              \<lparr>body_tag_name = new_version, body_name = dst @ '' '' @ new_version,
               body_prerelease = stage_prerelease sc, body_draft = True,
               body_target_commitish = dst, body_body = notes\<rparr>) (\<lambda>code.
       try_http (raise_for_status code) (\<lambda>ex.
         bnd (print (''ERROR: Failed to create release!  Changes were:'' @ [nl] @ notes)) (\<lambda>_.
         bnd (print ''Rolling back changes:'') (\<lambda>_.
         bnd (commit env token repo old_branch dst) (\<lambda>_.
         raise ex)))))))
     else ret ())))))))"

text \<open>
  The module from top to bottom: lines 22 to 59, then \<^verbatim>\<open>main\<close>. A stage \<^verbatim>\<open>"prod"\<close> with
  a truthy \<^verbatim>\<open>cmd_args.release\<close> stops at line 59.
\<close>

definition prod_warning :: string where
  "prod_warning = ''Warning: cannot release \"prod\" with a release type.'' @ [nl]
                  @ ''Specify no release type to produce a finalized version.''"

definition script :: "'w env \<Rightarrow> argv \<Rightarrow> (unit, 'w) prog" where
  "script env a =
     bnd (parse_args a) (\<lambda>cmd_args.
     bnd (if path cmd_args \<noteq> [] then chdir env (path cmd_args) else ret ()) (\<lambda>_.
     bnd (\<lambda>st. lift (load_config env (world st)) st) (\<lambda>config.
     bnd (if stage cmd_args = ''prod'' \<and> release cmd_args \<noteq> []
          then bnd (print prod_warning) (\<lambda>_. exit 1)
          else ret ()) (\<lambda>_.
     main env cmd_args config))))"


section \<open>A reference environment\<close>

text \<open>
  To run the script on concrete repositories, a small \<^verbatim>\<open>git\<close> and a small GitHub: a
  commit graph, the branches of the remote, the clone's remote-tracking refs, its local
  branches and its checked-out commit, the diff of the working tree, the published
  releases and the status the API answers to the next release creation. Only the
  commands the script issues are understood; any other command fails.
\<close>

record commit_obj =
  c_id :: string
  c_parents :: "string list"
  c_subject :: string
  c_paths :: "string list"

record repo =
  objects :: "commit_obj list"
  origin_heads :: "(string \<times> string) list"
  remotes :: "(string \<times> string) list"
  heads :: "(string \<times> string) list"
  head :: string
  tree_diff :: string
  published :: "release_entry list"
  post_status :: nat
  config_file :: "config option"
  environ :: "(string \<times> string) list"
  files :: "(string \<times> string) list"

definition parents_of :: "commit_obj list \<Rightarrow> string \<Rightarrow> string list" where
  "parents_of objs c = concat (map c_parents (filter (\<lambda>ob. c_id ob = c) objs))"

fun closure :: "commit_obj list \<Rightarrow> nat \<Rightarrow> string list \<Rightarrow> string list" where
  "closure objs 0 ids = ids"
| "closure objs (Suc n) ids = closure objs n (remdups (ids @ concat (map (parents_of objs) ids)))"

text \<open>The commits reachable from a commit, itself included.\<close>

definition reachable :: "commit_obj list \<Rightarrow> string \<Rightarrow> string list" where
  "reachable objs c = closure objs (length objs) [c]"

text \<open>
  A revision name: a local branch, \<^verbatim>\<open>origin/<branch>\<close> for a remote-tracking ref, or the
  id of a commit.
\<close>

definition resolve :: "repo \<Rightarrow> string \<Rightarrow> string option" where
  "resolve w name =
     (case map_of (heads w) name of
        Some c \<Rightarrow> Some c
      | None \<Rightarrow>
          (case (if startswith name ''origin/'' then map_of (remotes w) (drop 7 name) else None) of
             Some c \<Rightarrow> Some c
           | None \<Rightarrow> if name \<in> set (map c_id (objects w)) then Some name else None))"

text \<open>\<^verbatim>\<open>a...b\<close>: the two names around the first three dots.\<close>

fun split_range :: "string \<Rightarrow> string \<Rightarrow> (string \<times> string) option" where
  "split_range acc [] = None"
| "split_range acc (c # cs) =
     (if take 3 (c # cs) = ''...'' then Some (rev acc, drop 2 cs)
      else split_range (c # acc) cs)"

definition touches :: "string list \<Rightarrow> commit_obj \<Rightarrow> bool" where
  "touches pathspecs ob =
     list_ex (\<lambda>f. list_ex (\<lambda>p. f = p \<or> startswith f (p @ ''/'')) pathspecs) (c_paths ob)"

definition oneline :: "commit_obj \<Rightarrow> string" where
  "oneline ob = ''* '' @ take 7 (c_id ob) @ '' '' @ c_subject ob @ [nl]"

text \<open>
  The commands, in the order of the definition:
  \<^item> \<^verbatim>\<open>git diff\<close> prints the diff of the working tree;
  \<^item> \<^verbatim>\<open>git log ... -- p1 p2\<close>: after \<^verbatim>\<open>--\<close> every argument is a path, so the log is that
    of the checked-out commit, without merges, limited to the commits that touch one of
    the paths, one line per commit, newest first (\<^verbatim>\<open>objects\<close> holds the commits oldest
    first);
  \<^item> \<^verbatim>\<open>git log\<close> with the quoted-subject format and \<^verbatim>\<open>a...b\<close> prints the quoted subjects
    of the commits reachable from exactly one of the two revisions, separated by
    newlines;
  \<^item> \<^verbatim>\<open>git rev-parse name\<close> prints the commit id and a newline;
  \<^item> \<^verbatim>\<open>git remote set-url\<close> succeeds;
  \<^item> \<^verbatim>\<open>git checkout name\<close> checks the commit out, and fails with return code 1 when the
    name resolves to nothing;
  \<^item> \<^verbatim>\<open>git checkout -B branch\<close> points the local branch at the checked-out commit;
  \<^item> \<^verbatim>\<open>git push --force origin branch\<close> sets the branch of the remote, and the clone's
    tracking ref, to the local branch.
\<close>

definition git :: "string list \<Rightarrow> repo \<Rightarrow> (nat \<times> string \<times> string) \<times> repo" where
  "git args w =
     (if args = working_tree_cmd then ((0, tree_diff w, []), w)
      else if length args = 10 \<and> take 8 args = take 8 (check_diff_cmd [] []) then
        ((0, concat (map oneline
               (filter (\<lambda>ob. c_id ob \<in> set (reachable (objects w) (head w))
                              \<and> length (c_parents ob) \<le> 1 \<and> touches (drop 8 args) ob)
                  (rev (objects w)))), []), w)
      else if length args = 4 \<and> take 3 args = take 3 (release_notes_cmd [] []) then
        (case split_range [] (args ! 3) of
           None \<Rightarrow> ((128, [], ''fatal: bad revision''), w)
         | Some (a, b) \<Rightarrow>
             (case (resolve w a, resolve w b) of
                (Some ca, Some cb) \<Rightarrow>
                  ((0, join [nl] (map (\<lambda>ob. [CHR 0x22] @ c_subject ob @ [CHR 0x22])
                         (filter (\<lambda>ob. (c_id ob \<in> set (reachable (objects w) ca))
                                         \<noteq> (c_id ob \<in> set (reachable (objects w) cb)))
                            (rev (objects w)))), []), w)
              | _ \<Rightarrow> ((128, [], ''fatal: bad revision''), w)))
      else if length args = 3 \<and> take 2 args = [''git'', ''rev-parse''] then
        (case resolve w (args ! 2) of
           Some c \<Rightarrow> ((0, c @ [nl], []), w)
         | None \<Rightarrow> ((128, args ! 2 @ [nl], ''fatal: ambiguous argument''), w))
      else if length args = 5 \<and> take 4 args = [''git'', ''remote'', ''set-url'', ''origin''] then
        ((0, [], []), w)
      else if length args = 5
              \<and> take 4 args = [''git'', ''-c'', ''advice.detachedHead=false'', ''checkout''] then
        (case resolve w (args ! 4) of
           Some c \<Rightarrow> ((0, [], ''HEAD is now at '' @ take 7 c), w\<lparr>head := c\<rparr>)
         | None \<Rightarrow> ((1, [], ''error: pathspec did not match any file(s) known to git''), w))
      else if length args = 4 \<and> take 3 args = [''git'', ''checkout'', ''-B''] then
        ((0, [], ''Switched to and reset branch''),
         w\<lparr>heads := (args ! 3, head w) # heads w\<rparr>)
      else if length args = 5 \<and> take 4 args = take 4 (push_cmd []) then
        (case map_of (heads w) (args ! 4) of
           Some c \<Rightarrow>
             ((0, [], ''forced update''),
              w\<lparr>origin_heads := (args ! 4, c) # origin_heads w,
                remotes := (args ! 4, c) # remotes w\<rparr>)
         | None \<Rightarrow> ((1, [], ''error: src refspec does not match any''), w))
      else ((1, [], ''git: not understood''), w))"

text \<open>
  The releases API: the list, and a creation that is recorded when the status is 2xx.
\<close>

definition github_post ::
  "string \<Rightarrow> string \<Rightarrow> release_body \<Rightarrow> repo \<Rightarrow> (exn + nat) \<times> repo" where
  "github_post url auth b w =
     (Inr (post_status w),
      if 200 \<le> post_status w \<and> post_status w < 300
      then w\<lparr>published := \<lparr>tag_name = body_tag_name b\<rparr> # published w\<rparr>
      else w)"

definition reference_env :: "repo env" where
  "reference_env =
     \<lparr>run_process = git,
      change_dir = (\<lambda>p w. (None, w)),
      load_config = (\<lambda>w. case config_file w of
                            None \<Rightarrow> Inl (OSError ''./release_config.json'')
                          | Some c \<Rightarrow> Inr c),
      getenv = (\<lambda>w k. map_of (environ w) k),
      read_file = (\<lambda>w p. case map_of (files w) p of None \<Rightarrow> Inl (OSError p) | Some t \<Rightarrow> Inr t),
      get_secret = (\<lambda>w k. Inl (OSError k)),
      write_file = (\<lambda>p t w. (None, w\<lparr>files := (p, t) # files w\<rparr>)),
      http_get = (\<lambda>w url. Inr (published w)),
      http_post = github_post\<rparr>"

text \<open>
  A repository as the module's docstring describes the pipeline: \<^verbatim>\<open>staging\<close> is
  promoted from \<^verbatim>\<open>integration\<close>, \<^verbatim>\<open>prod\<close> from \<^verbatim>\<open>staging\<close>. Commit \<^verbatim>\<open>a1\<close> is the root,
  \<^verbatim>\<open>b2\<close> follows it on \<^verbatim>\<open>integration\<close>.
\<close>

definition pipeline :: config where
  "pipeline =
     \<lparr>repository = ''https://github.com/Bento007/CodeRelease'',
      release_map =
        [(''staging'', \<lparr>source = ''integration'', destination = ''staging'',
                        stage_prerelease = True\<rparr>),
         (''prod'', \<lparr>source = ''staging'', destination = ''prod'',
                     stage_prerelease = False\<rparr>)]\<rparr>"

definition a1 :: commit_obj where
  "a1 = \<lparr>c_id = ''a1a1a1a1'', c_parents = [], c_subject = ''initial'', c_paths = [''README.md'']\<rparr>"

definition b2 :: commit_obj where
  "b2 = \<lparr>c_id = ''b2b2b2b2'', c_parents = [''a1a1a1a1''], c_subject = ''add feature'',
         c_paths = [''promote.py'']\<rparr>"

definition clean_repo :: repo where
  "clean_repo =
     \<lparr>objects = [a1, b2],
      origin_heads = [(''integration'', ''b2b2b2b2''), (''staging'', ''a1a1a1a1'')],
      remotes = [(''integration'', ''b2b2b2b2''), (''staging'', ''a1a1a1a1'')],
      heads = [(''integration'', ''b2b2b2b2'')],
      head = ''b2b2b2b2'',
      tree_diff = [],
      published = [],
      post_status = 201,
      config_file = Some pipeline,
      environ = [(''GITHUB_TOKEN'', ''t0ken'')],
      files = []\<rparr>"

definition start :: "'w \<Rightarrow> 'w state" where
  "start w = \<lparr>world = w, trace = []\<rparr>"

definition staging_args :: argv where
  "staging_args =
     \<lparr>arg_stage = ''staging'', arg_release = None, arg_force = False,
      arg_release_notes = None, arg_dry_run = False, arg_path = None\<rparr>"


section \<open>Predicates on runs\<close>

text \<open>
  A Hoare triple for the process: from a state satisfying \<open>P\<close>, a call that returns
  \<open>x\<close> ends in a state satisfying \<open>I x\<close>, and a call that exits or raises ends in a
  state satisfying \<open>R\<close> of that exit or exception.
\<close>

definition hoare ::
  "('w state \<Rightarrow> bool) \<Rightarrow> ('a, 'w) prog \<Rightarrow> ('a \<Rightarrow> 'w state \<Rightarrow> bool)
     \<Rightarrow> (unit result \<Rightarrow> 'w state \<Rightarrow> bool) \<Rightarrow> bool" where
  "hoare P p I R =
     (\<forall>st. P st \<longrightarrow>
        (case p st of
           (Return x, s) \<Rightarrow> I x s
         | (Exit n, s) \<Rightarrow> R (Exit n) s
         | (Raise e, s) \<Rightarrow> R (Raise e) s))"

text \<open>The events added to a trace \<open>t0\<close> all satisfy \<open>S\<close>.\<close>

definition appended :: "event list \<Rightarrow> (event \<Rightarrow> bool) \<Rightarrow> 'w state \<Rightarrow> bool" where
  "appended t0 S st = (\<exists>es. trace st = t0 @ es \<and> list_all S es)"

definition is_print :: "event \<Rightarrow> bool" where
  "is_print e = (case e of Print m \<Rightarrow> True | _ \<Rightarrow> False)"

definition is_chdir :: "event \<Rightarrow> bool" where
  "is_chdir e = (case e of Chdir p \<Rightarrow> True | _ \<Rightarrow> False)"

definition is_get :: "event \<Rightarrow> bool" where
  "is_get e = (case e of Get u \<Rightarrow> True | _ \<Rightarrow> False)"



text \<open>
  The events of a run that changes nothing on the remote: output, the three read-only
  \<^verbatim>\<open>git\<close> commands of the checks and of the release notes, the listing of the releases,
  and the local release-notes file.
\<close>

definition quiet :: "string \<Rightarrow> string \<Rightarrow> event \<Rightarrow> bool" where
  "quiet src dst e =
     (case e of
        Print m \<Rightarrow> True
      | Run args rc out err \<Rightarrow>
          args \<in> set [working_tree_cmd, check_diff_cmd src dst, release_notes_cmd src dst]
      | Chdir p \<Rightarrow> False
      | Get u \<Rightarrow> True
      | Post u a b \<Rightarrow> False
      | Write p c \<Rightarrow> True)"

definition silent :: "string \<Rightarrow> string \<Rightarrow> event \<Rightarrow> bool" where
  "silent src dst e = (quiet src dst e \<and> \<not> is_get e)"

text \<open>The command \<open>args\<close> has run with return code 0 and standard output \<open>out\<close>.\<close>

definition ran :: "event list \<Rightarrow> (event \<Rightarrow> bool) \<Rightarrow> string list \<Rightarrow> string \<Rightarrow> 'w state \<Rightarrow> bool" where
  "ran t0 S args out st =
     (\<exists>es. trace st = t0 @ es \<and> list_all S es \<and> (\<exists>err. Run args 0 out err \<in> set es))"

text \<open>
  The release notes have been computed from the log and, when a path was given, written
  to it.
\<close>

definition noted :: "event list \<Rightarrow> cmd_args \<Rightarrow> string \<Rightarrow> string \<Rightarrow> 'w state \<Rightarrow> bool" where
  "noted t0 ca src dst st =
     (\<exists>es. trace st = t0 @ es \<and> list_all (quiet src dst) es
        \<and> (\<exists>out err. Run (release_notes_cmd src dst) 0 out err \<in> set es
              \<and> (\<forall>p. release_notes ca = Some p \<longrightarrow> p \<noteq> [] \<longrightarrow> Write p (bullets out) \<in> set es)))"

section \<open>Example runs\<close>

definition staging_cmd :: cmd_args where
  "staging_cmd = \<lparr>stage = ''staging'', release = ''prerelease'', force = False,
                  release_notes = None, dry_run = False, path = []\<rparr>"

definition prod_cmd :: cmd_args where
  "prod_cmd = \<lparr>stage = ''prod'', release = ''prerelease'', force = False, release_notes = None,
               dry_run = False, path = []\<rparr>"


definition forced_cmd :: cmd_args where
  "forced_cmd = \<lparr>stage = ''staging'', release = ''prerelease'', force = True,
                 release_notes = None, dry_run = False, path = []\<rparr>"

definition prod_argv :: argv where
  "prod_argv = \<lparr>arg_stage = ''prod'', arg_release = None, arg_force = False,
                arg_release_notes = None, arg_dry_run = False, arg_path = None\<rparr>"

definition prod_minor_argv :: argv where
  "prod_minor_argv = \<lparr>arg_stage = ''prod'', arg_release = Some ''minor'', arg_force = False,
                      arg_release_notes = None, arg_dry_run = False, arg_path = None\<rparr>"

text \<open>The API answers 422 to the release creation.\<close>

definition failing_publish :: repo where
  "failing_publish = clean_repo\<lparr>post_status := 422\<rparr>"

text \<open>\<^verbatim>\<open>staging\<close> holds a commit \<^verbatim>\<open>c3\<close> that \<^verbatim>\<open>integration\<close> does not have.\<close>

definition c3 :: commit_obj where
  "c3 = \<lparr>c_id = ''c3c3c3c3'', c_parents = [''a1a1a1a1''], c_subject = ''hotfix on staging'',
         c_paths = [''hotfix.py'']\<rparr>"

definition diverged_repo :: repo where
  "diverged_repo =
     clean_repo\<lparr>objects := [a1, b2, c3],
       origin_heads := [(''integration'', ''b2b2b2b2''), (''staging'', ''c3c3c3c3'')],
       remotes := [(''integration'', ''b2b2b2b2''), (''staging'', ''c3c3c3c3'')]\<rparr>"

text \<open>Uncommitted changes to a tracked file.\<close>

definition dirty_repo :: repo where
  "dirty_repo = clean_repo\<lparr>tree_diff := ''diff --git a/promote.py b/promote.py''\<rparr>"

text \<open>Release lists.\<close>

definition only_final :: repo where
  "only_final = clean_repo\<lparr>published := [\<lparr>tag_name = ''1.0.0''\<rparr>]\<rparr>"

definition malformed_tag :: repo where
  "malformed_tag = clean_repo\<lparr>published := [\<lparr>tag_name = ''1.0.0''\<rparr>, \<lparr>tag_name = ''v1.1''\<rparr>]\<rparr>"

definition candidate_3 :: repo where
  "candidate_3 =
     clean_repo\<lparr>published := [\<lparr>tag_name = ''1.0.0''\<rparr>, \<lparr>tag_name = ''1.2.0-rc.3''\<rparr>]\<rparr>"

definition three_releases :: "release_entry list" where
  "three_releases =
     [\<lparr>tag_name = ''1.0.0''\<rparr>, \<lparr>tag_name = ''1.1.0-rc.0''\<rparr>, \<lparr>tag_name = ''1.1.0-rc.1''\<rparr>]"

definition rc_0 :: repo where
  "rc_0 = clean_repo\<lparr>published := [\<lparr>tag_name = ''1.2.0-rc.0''\<rparr>]\<rparr>"

definition patch_cmd :: cmd_args where
  "patch_cmd = \<lparr>stage = ''staging'', release = ''patch'', force = False,
                release_notes = None, dry_run = False, path = []\<rparr>"

text \<open>
  The bump of a parsed version, by kind: the number named by the kind goes up by one,
  the numbers after it go back to 0 and the label is \<^verbatim>\<open>rc.1\<close>; a prerelease bump keeps the
  three numbers and takes the label given. Build metadata is dropped.
\<close>

definition bump_rule :: "string \<Rightarrow> version_info \<Rightarrow> string \<Rightarrow> string" where
  "bump_rule kind v label =
     (if kind = ''major'' then format_version (major v + 1) 0 0 (Some ''rc.1'') None
      else if kind = ''minor'' then format_version (major v) (minor v + 1) 0 (Some ''rc.1'') None
      else if kind = ''patch''
        then format_version (major v) (minor v) (patch v + 1) (Some ''rc.1'') None
      else format_version (major v) (minor v) (patch v) (Some label) None)"

text \<open>
  The label after a prerelease bump: \<^verbatim>\<open>rc.1\<close> for a version without label; a label whose
  last number is \<open>n\<close>, written without leading zeros, with no digit after it, becomes the
  same label with \<open>n + 1\<close> (so \<^verbatim>\<open>rc.N\<close> becomes \<^verbatim>\<open>rc.(N+1)\<close>); a label without any digit
  stays as it is.
\<close>

definition incremented :: "string option \<Rightarrow> string \<Rightarrow> bool" where
  "incremented old new =
     (case old of
        None \<Rightarrow> new = ''rc.1''
      | Some l \<Rightarrow>
          (list_all (\<lambda>c. \<not> is_digit c) l \<and> new = l)
          \<or> (\<exists>pfx n sfx. l = pfx @ str_of_nat n @ sfx
                \<and> (pfx = [] \<or> \<not> is_digit (last pfx))
                \<and> list_all (\<lambda>c. \<not> is_digit c) sfx
                \<and> new = pfx @ str_of_nat (n + 1) @ sfx))"

section \<open>Rules for the process\<close>

lemma hoareI:
  assumes "\<And>st r s. P st \<Longrightarrow> p st = (r, s)
             \<Longrightarrow> (case r of Return x \<Rightarrow> I x s | Exit n \<Rightarrow> R (Exit n) s | Raise e \<Rightarrow> R (Raise e) s)"
  shows "hoare P p I R"
  unfolding hoare_def
proof (intro allI impI)
  fix st assume "P st"
  obtain r s where rs: "p st = (r, s)" by (cases "p st")
  from assms [OF \<open>P st\<close> rs] rs
  show "case p st of (Return x, s) \<Rightarrow> I x s | (Exit n, s) \<Rightarrow> R (Exit n) s
          | (Raise e, s) \<Rightarrow> R (Raise e) s"
    by (cases r) simp_all
qed

lemma hoareD:
  "hoare P p I R \<Longrightarrow> P st \<Longrightarrow> p st = (r, s)
   \<Longrightarrow> (case r of Return x \<Rightarrow> I x s | Exit n \<Rightarrow> R (Exit n) s | Raise e \<Rightarrow> R (Raise e) s)"
  by (auto simp: hoare_def split: result.splits prod.splits)

lemma hoare_bnd:
  assumes "hoare P p I R" and "\<And>x. hoare (I x) (f x) J R"
  shows "hoare P (bnd p f) J R"
  using assms unfolding hoare_def bnd_def
  by (fastforce split: result.splits prod.splits)


lemma hoare_False: "hoare (\<lambda>s. False) p I R"
  by (simp add: hoare_def)



lemma hoare_ret: "(\<And>s. P s \<Longrightarrow> I x s) \<Longrightarrow> hoare P (ret x) I R"
  by (simp add: hoare_def ret_def)


lemma hoare_raise: "(\<And>s. P s \<Longrightarrow> R (Raise e) s) \<Longrightarrow> hoare P (raise e) I R"
  by (simp add: hoare_def raise_def)


lemma hoare_print: "(\<And>s. P s \<Longrightarrow> I () (emit (Print m) s)) \<Longrightarrow> hoare P (print m) I R"
  by (simp add: hoare_def print_def)




lemma appended_emit [simp]: "appended t0 S st \<Longrightarrow> S e \<Longrightarrow> appended t0 S (emit e st)"
  by (auto simp: appended_def emit_def)

lemma appended_world [simp]: "appended t0 S (st\<lparr>world := w\<rparr>) = appended t0 S st"
  by (simp add: appended_def)

lemma ran_emit [simp]: "ran t0 S args out st \<Longrightarrow> S e \<Longrightarrow> ran t0 S args out (emit e st)"
  unfolding ran_def emit_def by fastforce


lemma noted_emit [simp]:
  "noted t0 ca src dst st \<Longrightarrow> quiet src dst e \<Longrightarrow> noted t0 ca src dst (emit e st)"
  unfolding noted_def emit_def by fastforce

lemma noted_world [simp]: "noted t0 ca src dst (st\<lparr>world := w\<rparr>) = noted t0 ca src dst st"
  by (simp add: noted_def)

lemma quiet_simps [simp]:
  "quiet src dst (Print m)" "quiet src dst (Get u)" "quiet src dst (Write p c)"
  "quiet src dst (Run working_tree_cmd rc out err)"
  "quiet src dst (Run (check_diff_cmd src dst) rc out err)"
  "quiet src dst (Run (release_notes_cmd src dst) rc out err)"
  by (simp_all add: quiet_def)

lemma silent_simps [simp]:
  "silent src dst (Print m)"
  "silent src dst (Run working_tree_cmd rc out err)"
  "silent src dst (Run (check_diff_cmd src dst) rc out err)"
  "silent src dst (Run (release_notes_cmd src dst) rc out err)"
  by (simp_all add: silent_def is_get_def)


section \<open>What each function of the script adds to the trace\<close>

lemma resolve_token_state: "resolve_token env st = (r, s) \<Longrightarrow> s = st \<and> (\<forall>n. r \<noteq> Exit n)"
  by (auto simp: resolve_token_def Let_def ret_def bnd_def lift_def raise_def
      split: if_splits option.splits sum.splits)

lemma resolve_token_world:
  "world s = world st \<Longrightarrow> fst (resolve_token env s) = fst (resolve_token env st)"
  by (auto simp: resolve_token_def Let_def ret_def bnd_def lift_def raise_def
      split: if_splits option.splits sum.splits)









section \<open>Facts about the version listing\<close>

lemma parse_Inl: "parse s = Inl e \<Longrightarrow> e = not_semver s"
  by (auto simp: parse_def Let_def split: list.splits if_splits)

lemma comprehension_Inl:
  assumes "r \<in> set rs" and "parse_version_info (tag_name r) = Inl e"
  shows "\<exists>t \<in> set rs. parse_version_info (tag_name t) = Inl (not_semver (tag_name t))
           \<and> comprehension keep rs = Inl (not_semver (tag_name t))"
  using assms
proof (induction rs)
  case Nil
  then show ?case by simp
next
  case (Cons x xs)
  show ?case
  proof (cases "parse_version_info (tag_name x)")
    case (Inl e')
    then have "e' = not_semver (tag_name x)"
      by (simp add: parse_version_info_def parse_Inl)
    with Inl show ?thesis by simp
  next
    case (Inr v)
    with Cons.prems have "r \<in> set xs" by auto
    from Cons.IH [OF this Cons.prems(2)] obtain t where
      "t \<in> set xs" "parse_version_info (tag_name t) = Inl (not_semver (tag_name t))"
      "comprehension keep xs = Inl (not_semver (tag_name t))" by blast
    with Inr show ?thesis by auto
  qed
qed

section \<open>Facts about version strings\<close>

lemma less_ten: "k < 10 \<Longrightarrow> k = 0 \<or> k = 1 \<or> k = 2 \<or> k = 3 \<or> k = 4 \<or> k = 5 \<or> k = 6 \<or> k = 7
                  \<or> k = 8 \<or> k = (9::nat)"
  by arith

lemma digit_nth: "k < 10 \<Longrightarrow> digit_of (digit_char k) = k"
  by (drule less_ten) (auto simp: digit_of_def digit_char_def)

lemma digit_nth_is_digit: "k < 10 \<Longrightarrow> is_digit (digit_char k)"
  by (drule less_ten) (auto simp: is_digit_def digit_char_def)

lemma digit_nth_zero: "k < 10 \<Longrightarrow> 0 < k \<Longrightarrow> digit_char k \<noteq> CHR ''0''"
  by (drule less_ten) (auto simp: digit_char_def)

lemma str_of_nat_nonempty: "str_of_nat n \<noteq> []"
  by (subst str_of_nat.simps) simp

lemma str_of_nat_digits: "list_all is_digit (str_of_nat n)"
proof (induction n rule: str_of_nat.induct)
  case (1 n)
  show ?case
  proof (cases "n < 10")
    case True
    then show ?thesis
      by (subst str_of_nat.simps) (simp add: digit_nth_is_digit)
  next
    case False
    with 1 show ?thesis
      by (subst str_of_nat.simps) (simp add: digit_nth_is_digit)
  qed
qed

lemma str_of_nat_hd: "0 < n \<Longrightarrow> hd (str_of_nat n) \<noteq> CHR ''0''"
proof (induction n rule: str_of_nat.induct)
  case (1 n)
  show ?case
  proof (cases "n < 10")
    case True
    with "1.prems" show ?thesis
      by (subst str_of_nat.simps) (simp add: digit_nth_zero)
  next
    case False
    then have "0 < n div 10" by simp
    with 1 False show ?thesis
      by (subst str_of_nat.simps) (simp add: str_of_nat_nonempty)
  qed
qed

lemma str_of_nat_zero: "str_of_nat 0 = ''0''"
  by (subst str_of_nat.simps) (simp add: digit_char_def)

lemma int_of_str_snoc: "int_of_str (ds @ [c]) = 10 * int_of_str ds + digit_of c"
  by (simp add: int_of_str_def)

lemma int_of_str_of_nat: "int_of_str (str_of_nat n) = n"
proof (induction n rule: str_of_nat.induct)
  case (1 n)
  show ?case
  proof (cases "n < 10")
    case True
    then show ?thesis
      by (subst str_of_nat.simps) (simp add: int_of_str_def digit_nth)
  next
    case False
    with 1 show ?thesis
      by (subst str_of_nat.simps) (simp add: int_of_str_snoc digit_nth)
  qed
qed

lemma num_ok_str_of_nat: "num_ok (str_of_nat n)"
proof (cases "n = 0")
  case True
  then show ?thesis by (simp add: str_of_nat_zero num_ok_def is_digit_def)
next
  case False
  then show ?thesis
    by (simp add: num_ok_def str_of_nat_nonempty str_of_nat_digits str_of_nat_hd)
qed

lemma split_on_nonempty [simp]: "split_on c s \<noteq> []"
  by (induction s) (auto split: list.splits)

lemma split_on_none: "c \<notin> set s \<Longrightarrow> split_on c s = [s]"
  by (induction s) (auto split: list.splits)

lemma split_on_append:
  "split_on c (xs @ ys)
     = butlast (split_on c xs) @ [last (split_on c xs) @ hd (split_on c ys)] @ tl (split_on c ys)"
proof (induction xs)
  case Nil
  then show ?case by simp
next
  case (Cons x xs)
  obtain p ps where s: "split_on c xs = p # ps"
    by (cases "split_on c xs") simp_all
  show ?case
  proof (cases "x = c")
    case True
    with Cons show ?thesis by simp
  next
    case False
    with Cons s show ?thesis
      by (cases ps) (simp_all split: list.splits)
  qed
qed

lemma split_on_mid:
  assumes "c \<notin> set m"
  shows "split_on c (xs @ m @ ys)
           = butlast (split_on c xs) @ [last (split_on c xs) @ m @ hd (split_on c ys)]
             @ tl (split_on c ys)"
proof -
  have "split_on c (m @ ys) = [m @ hd (split_on c ys)] @ tl (split_on c ys)"
    by (subst split_on_append) (simp add: split_on_none assms)
  then show ?thesis
    by (subst split_on_append) simp
qed


lemma is_digit_ident: "is_digit c \<Longrightarrow> is_ident_char c"
  by (auto simp: is_digit_def is_ident_char_def)

lemma digit_not_special:
  "is_digit c \<Longrightarrow> c \<noteq> CHR ''.'' \<and> c \<noteq> CHR ''-'' \<and> c \<noteq> CHR ''+'' \<and> c \<noteq> nl"
  by (auto simp: is_digit_def)

lemma ident_not_special:
  "is_ident_char c \<Longrightarrow> c \<noteq> CHR ''.'' \<and> c \<noteq> CHR ''+'' \<and> c \<noteq> nl"
  by (auto simp: is_ident_char_def)

lemma digits_no_dot: "list_all is_digit D \<Longrightarrow> CHR ''.'' \<notin> set D"
  by (auto simp: list_all_iff dest: digit_not_special)

lemma increment_string_shape:
  obtains (same) "increment_string s = s"
  | (inc) before D suffix where "s = before @ D @ suffix" "D \<noteq> []" "list_all is_digit D"
      "increment_string s
         = before @ take (length D - length (str_of_nat (int_of_str D + 1))) D
           @ str_of_nat (int_of_str D + 1) @ suffix"
proof -
  let ?r = "rev s"
  let ?nd = "\<lambda>c. \<not> is_digit c"
  let ?r1 = "dropWhile ?nd ?r"
  let ?D = "rev (takeWhile is_digit ?r1)"
  let ?before = "rev (dropWhile is_digit ?r1)"
  let ?suffix = "rev (takeWhile ?nd ?r)"
  show ?thesis
  proof (cases "?D = []")
    case True
    then have "increment_string s = s"
      by (simp add: increment_string_def Let_def)
    then show ?thesis by (rule same)
  next
    case False
    have s: "s = ?before @ ?D @ ?suffix"
      by (metis append.assoc rev_append rev_rev_ident takeWhile_dropWhile_id)
    have d: "list_all is_digit ?D"
      by (simp add: list_all_iff) (meson set_takeWhileD)
    have "increment_string s
            = ?before @ take (length ?D - length (str_of_nat (int_of_str ?D + 1))) ?D
              @ str_of_nat (int_of_str ?D + 1) @ ?suffix"
      using False by (simp add: increment_string_def Let_def)
    with s False d show ?thesis by (rule inc)
  qed
qed

lemma pre_ident_ok_chars: "pre_ident_ok i \<Longrightarrow> list_all is_ident_char i"
  by (auto simp: pre_ident_ok_def is_ident_char_def)

lemma pre_ident_ok_replace:
  assumes "pre_ident_ok (a @ D @ b)" and "D \<noteq> []" and "list_all is_digit D"
    and "list_all is_digit N" and "N \<noteq> []" and "hd N \<noteq> CHR ''0''"
  shows "pre_ident_ok (a @ take (length D - length N) D @ N @ b)"
proof -
  let ?K = "take (length D - length N) D"
  have chars: "list_all is_ident_char (a @ ?K @ N @ b)"
    using pre_ident_ok_chars [OF assms(1)] assms(3,4)
    by (auto simp: list_all_iff dest: in_set_takeD is_digit_ident)
  show ?thesis
  proof (cases "a = []")
    case False
    then have "a @ D @ b \<noteq> ''0''"
      using assms(2) by (cases a; cases D) auto
    with assms(1) False have "hd a \<noteq> CHR ''0''"
      by (auto simp: pre_ident_ok_def)
    with False chars show ?thesis
      by (auto simp: pre_ident_ok_def)
  next
    case True
    show ?thesis
    proof (cases "D @ b = ''0''")
      case z: True
      with assms(2) have "D = ''0''" "b = []"
        by (cases D; auto)+
      with assms(5) have "?K = []" by (cases N) auto
      with True \<open>b = []\<close> chars assms(5,6) show ?thesis
        by (auto simp: pre_ident_ok_def)
    next
      case False
      with assms(1) True have h: "hd D \<noteq> CHR ''0''"
        using assms(2) by (auto simp: pre_ident_ok_def)
      have "hd (?K @ N @ b) \<noteq> CHR ''0''"
      proof (cases "?K = []")
        case True
        show ?thesis
          unfolding True using assms(5,6) by simp
      next
        case False
        then have "hd (?K @ N @ b) = hd D"
          by (cases D) (auto simp: take_Cons split: nat.splits)
        with h show ?thesis by simp
      qed
      with True chars assms(5) show ?thesis
        by (auto simp: pre_ident_ok_def)
    qed
  qed
qed

lemma prerelease_ok_increment:
  assumes "prerelease_ok p"
  shows "prerelease_ok (increment_string p)"
proof (cases p rule: increment_string_shape)
  case same
  with assms show ?thesis by simp
next
  case (inc before D suffix)
  let ?N = "str_of_nat (int_of_str D + 1)"
  let ?K = "take (length D - length ?N) D"
  let ?dot = "CHR ''.''"
  let ?a = "last (split_on ?dot before)" and ?b = "hd (split_on ?dot suffix)"
  have N: "list_all is_digit ?N" "?N \<noteq> []" "hd ?N \<noteq> CHR ''0''"
    by (simp_all add: str_of_nat_digits str_of_nat_nonempty str_of_nat_hd)
  have "list_all is_digit (?K @ ?N)"
    using inc(3) N(1) by (auto simp: list_all_iff dest: in_set_takeD)
  then have nodot: "?dot \<notin> set (?K @ ?N)"
    by (rule digits_no_dot)
  have old: "split_on ?dot p
               = butlast (split_on ?dot before) @ [?a @ D @ ?b] @ tl (split_on ?dot suffix)"
    unfolding inc(1) by (rule split_on_mid [OF digits_no_dot [OF inc(3)]])
  have new: "split_on ?dot (increment_string p)
               = butlast (split_on ?dot before) @ [?a @ (?K @ ?N) @ ?b] @ tl (split_on ?dot suffix)"
    using split_on_mid [OF nodot, of before suffix] by (simp add: inc(4))
  from assms old have ok: "list_all pre_ident_ok (butlast (split_on ?dot before))"
    "pre_ident_ok (?a @ D @ ?b)" "list_all pre_ident_ok (tl (split_on ?dot suffix))"
    by (simp_all add: prerelease_ok_def)
  from pre_ident_ok_replace [OF ok(2) inc(2,3) N]
  have "pre_ident_ok (?a @ (?K @ ?N) @ ?b)" by simp
  with ok(1,3) new show ?thesis
    by (simp add: prerelease_ok_def)
qed


lemma split_on_cons_sep: "c \<notin> set a \<Longrightarrow> split_on c (a @ c # r) = a # split_on c r"
  by (induction a) (auto split: list.splits)

lemma set_split_on:
  "x \<in> set s \<Longrightarrow> x = c \<or> (\<exists>part \<in> set (split_on c s). x \<in> set part)"
  by (induction s) (auto split: list.splits if_splits)

lemma prerelease_ok_chars:
  assumes "prerelease_ok p" and "x \<in> set p"
  shows "x = CHR ''.'' \<or> is_ident_char x"
proof -
  from set_split_on [OF assms(2), of "CHR ''.''"] show ?thesis
  proof
    assume "x = CHR ''.''" then show ?thesis ..
  next
    assume "\<exists>part \<in> set (split_on (CHR ''.'') p). x \<in> set part"
    then obtain part where "part \<in> set (split_on (CHR ''.'') p)" "x \<in> set part" by blast
    with assms(1) have "is_ident_char x"
      by (auto simp: prerelease_ok_def list_all_iff dest!: pre_ident_ok_chars)
    then show ?thesis ..
  qed
qed

lemma prerelease_ok_nonempty: "prerelease_ok p \<Longrightarrow> p \<noteq> []"
  by (auto simp: prerelease_ok_def pre_ident_ok_def)

lemma parse_prerelease_ok: "parse s = Inr v \<Longrightarrow> prerelease v = Some p \<Longrightarrow> prerelease_ok p"
  by (auto simp: parse_def Let_def split: list.splits if_splits option.splits)

text \<open>The three numbers, with dots between them.\<close>

lemma core_chars:
  "x \<in> set (str_of_nat a @ ''.'' @ str_of_nat b @ ''.'' @ str_of_nat c)
   \<Longrightarrow> x = CHR ''.'' \<or> is_digit x"
  using str_of_nat_digits [of a] str_of_nat_digits [of b] str_of_nat_digits [of c]
  by (auto simp: list_all_iff)

lemma core_split:
  "split_on (CHR ''.'') (str_of_nat a @ ''.'' @ str_of_nat b @ ''.'' @ str_of_nat c)
     = [str_of_nat a, str_of_nat b, str_of_nat c]"
proof -
  have nd: "CHR ''.'' \<notin> set (str_of_nat n)" for n
    by (rule digits_no_dot [OF str_of_nat_digits])
  show ?thesis
    using nd by (simp add: split_on_cons_sep split_on_none)
qed

lemma build_ok_chars:
  assumes "build_ok p" and "x \<in> set p"
  shows "x = CHR ''.'' \<or> is_ident_char x"
proof -
  from set_split_on [OF assms(2), of "CHR ''.''"] show ?thesis
  proof
    assume "x = CHR ''.''" then show ?thesis ..
  next
    assume "\<exists>part \<in> set (split_on (CHR ''.'') p). x \<in> set part"
    then obtain part where "part \<in> set (split_on (CHR ''.'') p)" "x \<in> set part" by blast
    with assms(1) have "is_ident_char x"
      by (auto simp: build_ok_def build_ident_ok_def list_all_iff)
    then show ?thesis ..
  qed
qed

lemma parse_build_ok: "parse s = Inr v \<Longrightarrow> build v = Some p \<Longrightarrow> build_ok p"
  by (auto simp: parse_def Let_def split: list.splits if_splits option.splits)

lemma split_first_absent:
  assumes "\<forall>x \<in> set xs. x \<noteq> c"
  shows "takeWhile (\<lambda>d. d \<noteq> c) xs = xs" and "after_first c xs = None"
proof -
  show "takeWhile (\<lambda>d. d \<noteq> c) xs = xs"
    using assms by (simp only: takeWhile_eq_all_conv)
  have "dropWhile (\<lambda>d. d \<noteq> c) xs = []"
    using assms by (simp only: dropWhile_eq_Nil_conv)
  then show "after_first c xs = None"
    by (simp only: after_first_def list.case)
qed

lemma split_first_present:
  assumes "\<forall>x \<in> set xs. x \<noteq> c"
  shows "takeWhile (\<lambda>d. d \<noteq> c) (xs @ c # ys) = xs" and "after_first c (xs @ c # ys) = Some ys"
proof -
  show "takeWhile (\<lambda>d. d \<noteq> c) (xs @ c # ys) = xs"
    using assms by (subst takeWhile_append2) auto
  have "dropWhile (\<lambda>d. d \<noteq> c) (xs @ c # ys) = c # ys"
    using assms by (subst dropWhile_append2) auto
  then show "after_first c (xs @ c # ys) = Some ys"
    by (simp only: after_first_def list.case)
qed

lemma parse_format:
  assumes "case pre of None \<Rightarrow> True | Some p \<Rightarrow> prerelease_ok p"
    and "case bld of None \<Rightarrow> True | Some p \<Rightarrow> build_ok p"
  shows "parse (format_version a b c pre bld)
           = Inr \<lparr>major = a, minor = b, patch = c, prerelease = pre, build = bld\<rparr>"
proof -
  let ?core = "str_of_nat a @ ''.'' @ str_of_nat b @ ''.'' @ str_of_nat c"
  let ?tail = "case pre of None \<Rightarrow> [] | Some p \<Rightarrow> ''-'' @ p"
  let ?meta = "case bld of None \<Rightarrow> [] | Some p \<Rightarrow> ''+'' @ p"
  let ?body = "?core @ ?tail"
  let ?s = "?body @ ?meta"
  have fmt: "format_version a b c pre bld = ?s"
    by (simp add: format_version_def)
  have core: "\<forall>x \<in> set ?core. x \<noteq> CHR ''-'' \<and> x \<noteq> CHR ''+'' \<and> x \<noteq> nl"
    using core_chars [of _ a b c] digit_not_special by blast
  have tail: "\<forall>x \<in> set ?tail. x \<noteq> CHR ''+'' \<and> x \<noteq> nl"
  proof (cases pre)
    case None
    then show ?thesis by simp
  next
    case (Some p)
    with assms have "prerelease_ok p" by simp
    from prerelease_ok_chars [OF this] ident_not_special
    have "\<forall>x \<in> set p. x \<noteq> CHR ''+'' \<and> x \<noteq> nl" by blast
    with Some show ?thesis by simp
  qed
  have meta: "\<forall>x \<in> set ?meta. x \<noteq> nl"
  proof (cases bld)
    case None
    then show ?thesis by simp
  next
    case (Some p)
    with assms have "build_ok p" by simp
    from build_ok_chars [OF this] ident_not_special
    have "\<forall>x \<in> set p. x \<noteq> nl" by blast
    with Some show ?thesis by simp
  qed
  have "?s \<noteq> []"
    by (simp add: str_of_nat_nonempty)
  then have "last ?s \<in> set ?s"
    by (rule last_in_set)
  with core tail meta have nonl: "\<not> (?s \<noteq> [] \<and> last ?s = nl)"
    by (metis UnE set_append)
  have noplus: "\<forall>x \<in> set ?body. x \<noteq> CHR ''+''"
    using core tail by (metis UnE set_append)
  have body: "takeWhile (\<lambda>d. d \<noteq> CHR ''+'') ?s = ?body"
    and bld: "after_first (CHR ''+'') ?s = bld"
  proof -
    show "takeWhile (\<lambda>d. d \<noteq> CHR ''+'') ?s = ?body"
    proof (cases bld)
      case None
      with split_first_absent(1) [OF noplus] show ?thesis by simp
    next
      case (Some p)
      with split_first_present(1) [OF noplus, of p] show ?thesis by simp
    qed
    show "after_first (CHR ''+'') ?s = bld"
    proof (cases bld)
      case None
      with split_first_absent(2) [OF noplus] show ?thesis by simp
    next
      case (Some p)
      with split_first_present(2) [OF noplus, of p] show ?thesis by simp
    qed
  qed
  have nodash: "\<forall>x \<in> set ?core. x \<noteq> CHR ''-''"
    using core by blast
  have tw: "takeWhile (\<lambda>d. d \<noteq> CHR ''-'') ?body = ?core"
  proof (cases pre)
    case None
    with split_first_absent(1) [OF nodash] show ?thesis by simp
  next
    case (Some p)
    with split_first_present(1) [OF nodash, of p] show ?thesis by simp
  qed
  have dw: "after_first (CHR ''-'') ?body = pre"
  proof (cases pre)
    case None
    with split_first_absent(2) [OF nodash] show ?thesis by simp
  next
    case (Some p)
    with split_first_present(2) [OF nodash, of p] show ?thesis by simp
  qed
  show ?thesis
    unfolding fmt parse_def Let_def
    by (simp only: nonl if_False body bld tw dw core_split list.case num_ok_str_of_nat
          int_of_str_of_nat option.case simp_thms if_True)
       (use assms in \<open>auto split: option.splits\<close>)
qed

lemma parse_str_version:
  assumes "parse s = Inr v"
  shows "parse (str_version v) = Inr v"
proof -
  have "case prerelease v of None \<Rightarrow> True | Some p \<Rightarrow> prerelease_ok p"
    using parse_prerelease_ok [OF assms] by (auto split: option.splits)
  moreover have "case build v of None \<Rightarrow> True | Some p \<Rightarrow> build_ok p"
    using parse_build_ok [OF assms] by (auto split: option.splits)
  ultimately show ?thesis
    unfolding str_version_def by (simp add: parse_format)
qed

lemma parse_zero_version: "parse (str_version zero_version) = Inr zero_version"
  unfolding str_version_def by (simp add: parse_format zero_version_def)

lemma comprehension_parsed:
  "comprehension keep rs = Inr vs \<Longrightarrow> v \<in> set vs \<Longrightarrow> \<exists>r \<in> set rs. parse (tag_name r) = Inr v"
proof (induction rs arbitrary: vs)
  case Nil
  then show ?case by simp
next
  case (Cons x xs)
  then show ?case
    by (auto simp: parse_version_info_def split: sum.splits if_splits)
qed

lemma max_versions_member: "max_versions vs = Inr m \<Longrightarrow> m \<in> set vs"
proof -
  have "foldl (\<lambda>m x. if version_gt x m then x else m) v rest \<in> set (v # rest)" for v rest
    by (induction rest arbitrary: v) auto
  then show "max_versions vs = Inr m \<Longrightarrow> m \<in> set vs"
    by (auto simp: max_versions_def split: list.splits)
qed

lemma current_of_parses:
  assumes "current_of stg rs = Inr cur"
  shows "\<exists>v. cur = str_version v \<and> parse cur = Inr v"
proof -
  from assms obtain vs m where vs:
    "(if rs \<noteq> [] \<and> stg = ''staging'' then comprehension is_rc rs
      else if rs \<noteq> [] \<and> stg = ''prod'' then comprehension no_prerelease rs
      else Inr [zero_version]) = Inr vs"
    and m: "max_versions vs = Inr m" and cur: "cur = str_version m"
    by (auto simp: current_of_def split: sum.splits)
  from max_versions_member [OF m] have mem: "m \<in> set vs" .
  have "parse (str_version m) = Inr m"
  proof (cases "rs \<noteq> [] \<and> (stg = ''staging'' \<or> stg = ''prod'')")
    case True
    with vs have "comprehension is_rc rs = Inr vs \<or> comprehension no_prerelease rs = Inr vs"
      by (auto split: if_splits)
    with mem obtain r :: release_entry where "parse (tag_name r) = Inr m"
      using comprehension_parsed by blast
    then show ?thesis by (rule parse_str_version)
  next
    case False
    with vs mem have "m = zero_version" by (auto split: if_splits)
    then show ?thesis by (simp add: parse_zero_version)
  qed
  with cur show ?thesis by blast
qed

lemma increment_rc0: "increment_string ''rc.0'' = ''rc.1''"
  by code_simp

lemma prerelease_ok_rc0: "prerelease_ok ''rc.0''"
  by code_simp

lemma attach_rc:
  "(case parse_version_info (format_version a b c None None) of
      Inl e \<Rightarrow> Inl e
    | Inr v \<Rightarrow> if \<not> no_prerelease v then Inr (format_version a b c None None)
               else bump_prerelease (format_version a b c None None) ''rc'')
     = Inr (format_version a b c (Some ''rc.1'') None)"
  by (simp add: parse_version_info_def parse_format no_prerelease_def bump_prerelease_def
      increment_rc0)

lemma str_of_nat_length_mono: "m \<le> n \<Longrightarrow> length (str_of_nat m) \<le> length (str_of_nat n)"
proof (induction n arbitrary: m rule: str_of_nat.induct)
  case (1 n)
  show ?case
  proof (cases "m < 10")
    case True
    then have "length (str_of_nat m) = 1"
      by (subst str_of_nat.simps) simp
    moreover have "1 \<le> length (str_of_nat n)"
      using str_of_nat_nonempty [of n] by (cases "str_of_nat n") simp_all
    ultimately show ?thesis by simp
  next
    case False
    with "1.prems" have n: "\<not> n < 10" by simp
    have "m div 10 \<le> n div 10"
      using "1.prems" by (rule div_le_mono)
    from "1.IH" [OF n this] False n show ?thesis
      by (subst str_of_nat.simps, subst (2) str_of_nat.simps) simp
  qed
qed

lemma span_all:
  assumes "\<forall>x \<in> set xs. P x" and "ys = [] \<or> \<not> P (hd ys)"
  shows "takeWhile P (xs @ ys) = xs" and "dropWhile P (xs @ ys) = ys"
proof -
  have t: "takeWhile P ys = []" and d: "dropWhile P ys = ys"
    using assms(2) by (cases ys; simp)+
  show "takeWhile P (xs @ ys) = xs"
    using assms(1) by (simp add: takeWhile_append2 t)
  show "dropWhile P (xs @ ys) = ys"
    using assms(1) by (simp add: dropWhile_append2 d)
qed

lemma increment_string_no_digit:
  assumes "list_all (\<lambda>c. \<not> is_digit c) l"
  shows "increment_string l = l"
proof -
  have d: "dropWhile (\<lambda>c. \<not> is_digit c) (rev l) = []"
    using assms by (simp add: list_all_iff)
  show ?thesis
    unfolding increment_string_def Let_def d by simp
qed

lemma increment_string_number:
  assumes "pfx = [] \<or> \<not> is_digit (last pfx)"
    and "list_all (\<lambda>c. \<not> is_digit c) sfx"
  shows "increment_string (pfx @ str_of_nat n @ sfx) = pfx @ str_of_nat (n + 1) @ sfx"
proof -
  let ?nd = "\<lambda>c. \<not> is_digit c"
  let ?D = "str_of_nat n"
  let ?r = "rev (pfx @ ?D @ sfx)"
  have r: "?r = rev sfx @ (rev ?D @ rev pfx)"
    by simp
  have dig: "\<forall>c \<in> set (rev ?D). is_digit c"
    using str_of_nat_digits [of n] by (simp add: list_all_iff)
  have ne: "rev ?D \<noteq> []"
    by (simp add: str_of_nat_nonempty)
  then have "hd (rev ?D @ rev pfx) \<in> set (rev ?D)"
    by (cases "rev ?D") simp_all
  with dig have hd_dig: "rev ?D @ rev pfx = [] \<or> \<not> ?nd (hd (rev ?D @ rev pfx))"
    by blast
  have nds: "\<forall>c \<in> set (rev sfx). ?nd c"
    using assms(2) by (simp add: list_all_iff)
  have tw1: "takeWhile ?nd ?r = rev sfx" and dw1: "dropWhile ?nd ?r = rev ?D @ rev pfx"
    unfolding r by (rule span_all [OF nds hd_dig])+
  have stop: "rev pfx = [] \<or> \<not> is_digit (hd (rev pfx))"
    using assms(1) by (cases pfx rule: rev_cases) auto
  have tw2: "takeWhile is_digit (rev ?D @ rev pfx) = rev ?D"
    and dw2: "dropWhile is_digit (rev ?D @ rev pfx) = rev pfx"
    by (rule span_all [OF dig stop])+
  show ?thesis
    unfolding increment_string_def Let_def tw1 dw1 tw2 dw2
    by (simp add: str_of_nat_nonempty int_of_str_of_nat str_of_nat_length_mono del: rev_append)
qed

lemma incremented_increment:
  assumes "incremented old label" and "old \<noteq> Some []"
  shows "increment_string (case old of None \<Rightarrow> ''rc.0'' | Some p \<Rightarrow> p) = label"
proof (cases old)
  case None
  with assms show ?thesis by (simp add: incremented_def increment_rc0)
next
  case (Some l)
  with assms(1) consider "list_all (\<lambda>c. \<not> is_digit c) l" "label = l"
    | pfx n sfx where "l = pfx @ str_of_nat n @ sfx" "pfx = [] \<or> \<not> is_digit (last pfx)"
        "list_all (\<lambda>c. \<not> is_digit c) sfx" "label = pfx @ str_of_nat (n + 1) @ sfx"
    by (auto simp: incremented_def)
  then show ?thesis
  proof cases
    case 1
    with Some show ?thesis by (simp add: increment_string_no_digit)
  next
    case 2
    with Some show ?thesis by (simp add: increment_string_number)
  qed
qed

lemma bumped_rule:
  assumes "parse cur = Inr v" and "kind \<in> set choices"
    and "kind = ''prerelease'' \<longrightarrow> incremented (prerelease v) label"
  shows "bumped kind cur = Inr (bump_rule kind v label)"
proof -
  consider "kind = ''major''" | "kind = ''minor''" | "kind = ''patch''" | "kind = ''prerelease''"
    using assms(2) by (auto simp: choices_def)
  then show ?thesis
  proof cases
    case 1
    then show ?thesis
      using assms(1) by (simp add: bumped_def bump_by_def bump_major_def bump_rule_def attach_rc)
  next
    case 2
    then show ?thesis
      using assms(1) by (simp add: bumped_def bump_by_def bump_minor_def bump_rule_def attach_rc)
  next
    case 3
    then show ?thesis
      using assms(1) by (simp add: bumped_def bump_by_def bump_patch_def bump_rule_def attach_rc)
  next
    case 4
    let ?q = "case prerelease v of None \<Rightarrow> ''rc.0'' | Some p \<Rightarrow> p"
    have q: "prerelease_ok ?q"
      using parse_prerelease_ok [OF assms(1)] prerelease_ok_rc0 by (auto split: option.splits)
    have "prerelease v \<noteq> Some []"
      using parse_prerelease_ok [OF assms(1), of "[]"] prerelease_ok_nonempty by blast
    with 4 assms(3) have lab: "increment_string ?q = label"
      by (simp add: incremented_increment)
    have b: "bump_prerelease cur ''rc''
               = Inr (format_version (major v) (minor v) (patch v) (Some (increment_string ?q)) None)"
    proof (cases "prerelease v")
      case None
      then show ?thesis by (simp add: bump_prerelease_def assms(1))
    next
      case (Some p)
      with parse_prerelease_ok [OF assms(1)] have "p \<noteq> []"
        by (simp add: prerelease_ok_nonempty)
      with Some show ?thesis by (simp add: bump_prerelease_def assms(1))
    qed
    have ok: "prerelease_ok (increment_string ?q)"
      by (rule prerelease_ok_increment [OF q])
    then have ne: "increment_string ?q \<noteq> []"
      by (rule prerelease_ok_nonempty)
    have p: "parse_version_info
               (format_version (major v) (minor v) (patch v) (Some (increment_string ?q)) None)
             = Inr \<lparr>major = major v, minor = minor v, patch = patch v,
                     prerelease = Some (increment_string ?q), build = None\<rparr>"
      unfolding parse_version_info_def using ok by (simp add: parse_format)
    have b': "bump_prerelease cur ''rc''
                = Inr (format_version (major v) (minor v) (patch v) (Some label) None)"
      using b unfolding lab .
    have p': "parse_version_info
                (format_version (major v) (minor v) (patch v) (Some label) None)
              = Inr \<lparr>major = major v, minor = minor v, patch = patch v,
                      prerelease = Some label, build = None\<rparr>"
      using p unfolding lab .
    have ne': "label \<noteq> []"
      using ne unfolding lab .
    show ?thesis
      using 4 ne' by (simp add: bumped_def bump_by_def b' p' no_prerelease_def bump_rule_def)
  qed
qed

lemma str_of_nat_0_1:
  "str_of_nat 0 = ''0''" "str_of_nat (0 + 1) = ''1''" "str_of_nat (Suc 0) = ''1''"
  by (subst str_of_nat.simps, simp add: digit_char_def)+

section \<open>The claims\<close>

text \<open>
  Claim C1: when the promotion has succeeded and the release creation is answered with
  an error status, the destination branch is rolled back to the commit captured before
  the promotion and the publish error is raised again. The script does start the
  rollback, but it passes the captured output of \<^verbatim>\<open>git rev-parse\<close> (the commit id and a
  newline) to \<^verbatim>\<open>commit\<close>, which checks out \<^verbatim>\<open>origin/<that output>\<close>: no such ref exists,
  the checkout fails, and the destination stays at the promoted commit. Run on a
  repository whose \<^verbatim>\<open>staging\<close> is at \<^verbatim>\<open>a1a1a1a1\<close>, with the API answering 422.
\<close>

theorem rollback_does_not_restore:
  "case script reference_env staging_args (start failing_publish) of
     (r, st) \<Rightarrow>
       r = Raise (CalledProcessError 1
             [''git'', ''-c'', ''advice.detachedHead=false'', ''checkout'',
              ''origin/a1a1a1a1'' @ [nl]])
       \<and> map_of (origin_heads failing_publish) ''staging'' = Some ''a1a1a1a1''
       \<and> map_of (origin_heads (world st)) ''staging'' = Some ''b2b2b2b2''"
  by code_simp

text \<open>
  Claim C2: a promotion to \<^verbatim>\<open>prod\<close> passes the bump-kind validation exactly when no
  bump kind is given. The module's docstring and the warning it prints say the same,
  but \<^verbatim>\<open>--release\<close> defaults to \<^verbatim>\<open>"prerelease"\<close>, so the plain invocation
  \<^verbatim>\<open>promote.py prod\<close> is rejected as well: it prints the warning and exits with 1.
\<close>

theorem prod_without_release_rejected:
  "script reference_env prod_argv (start clean_repo)
     = (Exit 1, \<lparr>world = clean_repo, trace = [Print prod_warning]\<rparr>)"
  by code_simp

text \<open>
  Claim C3: every invocation with stage \<^verbatim>\<open>prod\<close> that \<^verbatim>\<open>argparse\<close> accepts, with
  \<^verbatim>\<open>--release\<close> given or not, ends with exit status 1 at the validation of line 54: the
  value of \<^verbatim>\<open>--release\<close> is never empty. Nothing but output and the change of directory
  has happened, so no version is ever computed for \<^verbatim>\<open>prod\<close>; the only other way out is an
  exception from the change of directory or from reading the configuration, which also
  gives exit status 1.
\<close>

theorem prod_stage_always_rejected:
  assumes "arg_stage a = ''prod''"
    and "arg_release a = None \<or> (\<exists>k \<in> set choices. arg_release a = Some k)"
    and "script env a st = (r, st')"
  shows "exit_status r = 1
         \<and> (\<exists>es. trace st' = trace st @ es \<and> list_all (\<lambda>e. is_print e \<or> is_chdir e) es
               \<and> (r = Exit 1 \<longrightarrow> es \<noteq> [] \<and> last es = Print prod_warning))
         \<and> (r = Exit 1
              \<or> (\<exists>e. r = Raise e
                    \<and> (fst (change_dir env (case arg_path a of None \<Rightarrow> [] | Some p \<Rightarrow> p) (world st))
                           = Some e
                         \<or> load_config env (world st') = Inl e)))"
  using assms
  by (auto simp: script_def parse_args_def bnd_def ret_def exit_def chdir_def lift_def print_def
      emit_def choices_def is_print_def is_chdir_def
      split: option.splits sum.splits prod.splits if_splits)

theorem prod_stage_always_rejected_witness:
  "arg_stage prod_minor_argv = ''prod''
   \<and> (\<exists>k \<in> set choices. arg_release prod_minor_argv = Some k)
   \<and> script reference_env prod_minor_argv (start clean_repo)
       = (Exit 1, \<lparr>world = clean_repo, trace = [Print prod_warning]\<rparr>)
   \<and> exit_status (Exit 1 :: unit result) = 1
   \<and> (\<exists>es. [Print prod_warning] = trace (start clean_repo) @ es
          \<and> list_all (\<lambda>e. is_print e \<or> is_chdir e) es
          \<and> es \<noteq> [] \<and> last es = Print prod_warning)"
proof -
  have s: "arg_stage prod_minor_argv = ''prod''"
    by (simp add: prod_minor_argv_def)
  have k: "\<exists>k \<in> set choices. arg_release prod_minor_argv = Some k"
    by (simp add: prod_minor_argv_def choices_def)
  have run: "script reference_env prod_minor_argv (start clean_repo)
               = (Exit 1, \<lparr>world = clean_repo, trace = [Print prod_warning]\<rparr>)"
    by code_simp
  from prod_stage_always_rejected [OF s disjI2 [OF k] run] s k run
  show ?thesis by simp
qed

text \<open>
  Claim C4: \<^verbatim>\<open>get_current_version\<close> returns the greatest qualifying version, or 0.0.0
  when none exists. The script starts from the list \<^verbatim>\<open>[VersionInfo(0, 0, 0)]\<close> for that
  purpose, but replaces it by the filtered list whenever the release list is not empty;
  when releases exist and none qualifies, \<^verbatim>\<open>max\<close> is applied to an empty list and raises
  \<^verbatim>\<open>ValueError\<close>. Run for stage \<^verbatim>\<open>staging\<close> on a repository whose only release is 1.0.0.
\<close>

theorem no_qualifying_release_raises:
  "fst (get_current_version reference_env staging_cmd ''Bento007/CodeRelease'' ''staging''
          (start only_final))
     = Raise (ValueError ''max() arg is an empty sequence'')"
  by code_simp

text \<open>The example of the specification and the empty release list do come out as stated.\<close>

lemma current_of_examples:
  "current_of ''staging'' three_releases = Inr ''1.1.0-rc.1''"
  "current_of ''prod'' three_releases = Inr ''1.0.0''"
  "current_of ''staging'' [] = Inr ''0.0.0''"
  "current_of ''prod'' [] = Inr ''0.0.0''"
  by code_simp+

text \<open>
  Claim C5: a release whose tag is not a semantic version is skipped, and the greatest
  of the other qualifying versions is still returned. As stated this fails: with the
  releases 1.0.0 and v1.1 and stage \<^verbatim>\<open>prod\<close> the call raises the parser's \<^verbatim>\<open>ValueError\<close>,
  although 1.0.0 alone gives 1.0.0.
\<close>

theorem malformed_tag_not_skipped:
  "fst (get_current_version reference_env prod_cmd ''Bento007/CodeRelease'' ''prod''
          (start malformed_tag))
     = Raise (ValueError ''v1.1 is not valid SemVer string'')
   \<and> current_of ''prod'' [\<lparr>tag_name = ''1.0.0''\<rparr>] = Inr ''1.0.0''"
  by code_simp

text \<open>
  Claim C5, amended: for the stages \<^verbatim>\<open>staging\<close> and \<^verbatim>\<open>prod\<close>, a release list that holds
  a tag the parser rejects makes \<^verbatim>\<open>get_current_version\<close> raise the parser's \<^verbatim>\<open>ValueError\<close>
  for such a tag; nothing is skipped and no version is returned.
\<close>

theorem malformed_tag_aborts:
  assumes "stg = ''staging'' \<or> stg = ''prod''"
    and "http_get env (world st) (releases_url repo) = Inr releases"
    and "r \<in> set releases"
    and "parse_version_info (tag_name r) = Inl e"
  shows "\<exists>t \<in> set releases.
           parse_version_info (tag_name t) = Inl (not_semver (tag_name t))
           \<and> fst (get_current_version env cmd_args repo stg st) = Raise (not_semver (tag_name t))"
proof -
  from assms(3) have ne: "releases \<noteq> []" by auto
  have "\<exists>t \<in> set releases. parse_version_info (tag_name t) = Inl (not_semver (tag_name t))
          \<and> current_of stg releases = Inl (not_semver (tag_name t))"
  proof (cases "stg = ''staging''")
    case True
    from comprehension_Inl [OF assms(3,4), of is_rc] True ne show ?thesis
      by (auto simp: current_of_def)
  next
    case False
    with assms(1) have "stg = ''prod''" by simp
    with comprehension_Inl [OF assms(3,4), of no_prerelease] ne show ?thesis
      by (auto simp: current_of_def)
  qed
  then obtain t where t: "t \<in> set releases"
    "parse_version_info (tag_name t) = Inl (not_semver (tag_name t))"
    "current_of stg releases = Inl (not_semver (tag_name t))"
    by blast
  have "stg \<noteq> []" using assms(1) by auto
  with t assms(2)
  have "fst (get_current_version env cmd_args repo stg st) = Raise (not_semver (tag_name t))"
    by (simp add: get_current_version_def bnd_def get_def lift_def)
  with t(1,2) show ?thesis by blast
qed

theorem malformed_tag_aborts_witness:
  "http_get reference_env (world (start malformed_tag)) (releases_url ''Bento007/CodeRelease'')
     = Inr (published malformed_tag)
   \<and> \<lparr>tag_name = ''v1.1''\<rparr> \<in> set (published malformed_tag)
   \<and> parse_version_info (tag_name \<lparr>tag_name = ''v1.1''\<rparr>) = Inl (not_semver ''v1.1'')
   \<and> (\<exists>t \<in> set (published malformed_tag).
         parse_version_info (tag_name t) = Inl (not_semver (tag_name t))
         \<and> fst (get_current_version reference_env prod_cmd ''Bento007/CodeRelease'' ''prod''
                  (start malformed_tag))
             = Raise (not_semver (tag_name t)))"
proof -
  have a: "http_get reference_env (world (start malformed_tag))
             (releases_url ''Bento007/CodeRelease'') = Inr (published malformed_tag)"
    by (simp add: reference_env_def start_def)
  have b: "\<lparr>tag_name = ''v1.1''\<rparr> \<in> set (published malformed_tag)"
    by (simp add: malformed_tag_def clean_repo_def)
  have c: "parse_version_info (tag_name \<lparr>tag_name = ''v1.1''\<rparr>) = Inl (not_semver ''v1.1'')"
    by code_simp
  from malformed_tag_aborts [OF disjI2 a b c, where cmd_args = prod_cmd] a b c
  show ?thesis by simp
qed

text \<open>
  Claim C6: on the bump path the requested bump is applied to the current version of the
  stage and a version left without a prerelease label gets one that starts at
  \<^verbatim>\<open>rc.0\<close>; a prerelease bump of 1.2.0-rc.0 gives 1.2.0-rc.1 and a patch bump of 1.2.0
  gives 1.2.1-rc.0. The label attached is \<^verbatim>\<open>rc.1\<close>: \<^verbatim>\<open>semver.bump_prerelease\<close> starts from
  \<^verbatim>\<open>rc.0\<close> and increments it at once. The patch bump of 1.2.0 gives 1.2.1-rc.1, and so does
  a run for \<^verbatim>\<open>staging\<close> with \<^verbatim>\<open>--release patch\<close> when the latest candidate is 1.2.0-rc.0.
\<close>

theorem patch_bump_starts_at_rc_1:
  "bumped ''patch'' ''1.2.0'' = Inr ''1.2.1-rc.1''
   \<and> bumped ''patch'' ''1.2.0'' \<noteq> Inr ''1.2.1-rc.0''
   \<and> fst (update_version reference_env patch_cmd ''Bento007/CodeRelease'' ''integration''
             ''staging'' (start rc_0))
       = Return ''1.2.1-rc.1''"
  by code_simp

text \<open>
  Claim C6, amended: for a non-production promotion (stage and destination other than
  \<^verbatim>\<open>prod\<close>) whose source branch is not named \<^verbatim>\<open>prod\<close>, with a bump kind among the four
  choices, the current version of the stage parses and \<^verbatim>\<open>update_version\<close> computes its
  bump by \<open>bump_rule\<close>: major, minor or patch incremented, the lower numbers reset, with
  the label \<^verbatim>\<open>rc.1\<close>; or, for a prerelease bump, the same three numbers and the label
  \<open>incremented\<close>: \<^verbatim>\<open>rc.1\<close> for a version without label, \<^verbatim>\<open>rc.(N+1)\<close> for \<^verbatim>\<open>rc.N\<close> (the last
  number of the label goes up by one). That version is returned unless it equals the
  current one, in which case the run ends with exit status 0.
\<close>

theorem update_version_bumps:
  assumes "stage cmd_args \<noteq> ''prod''" and "dst \<noteq> ''prod''" and "src \<noteq> ''prod''"
    and "http_get env (world st) (releases_url repo) = Inr releases"
    and "current_of (stage cmd_args) releases = Inr cur"
    and "release cmd_args \<in> set choices"
  shows "\<exists>v. parse cur = Inr v
           \<and> (\<forall>label.
                 (release cmd_args = ''prerelease'' \<longrightarrow> incremented (prerelease v) label)
                 \<longrightarrow> fst (update_version env cmd_args repo src dst st)
                       = (if bump_rule (release cmd_args) v label = cur then Exit 0
                          else Return (bump_rule (release cmd_args) v label)))"
proof -
  from current_of_parses [OF assms(5)] obtain v where v: "parse cur = Inr v" by blast
  have g: "get_current_version env cmd_args repo (stage cmd_args) st
             = (Return cur, emit (Get (releases_url repo)) st)"
    using assms(4,5) by (simp add: get_current_version_def bnd_def get_def lift_def)
  have "fst (update_version env cmd_args repo src dst st)
          = (if bump_rule (release cmd_args) v label = cur then Exit 0
             else Return (bump_rule (release cmd_args) v label))"
    if "release cmd_args = ''prerelease'' \<longrightarrow> incremented (prerelease v) label" for label
    using assms(3) bumped_rule [OF v assms(6) that]
    by (auto simp: update_version_def bnd_def g lift_def print_def exit_def ret_def)
  with v show ?thesis by blast
qed

theorem update_version_bumps_witness:
  "stage staging_cmd \<noteq> ''prod'' \<and> ''staging'' \<noteq> ''prod'' \<and> ''integration'' \<noteq> ''prod''
   \<and> http_get reference_env (world (start rc_0)) (releases_url ''Bento007/CodeRelease'')
       = Inr (published rc_0)
   \<and> current_of (stage staging_cmd) (published rc_0) = Inr ''1.2.0-rc.0''
   \<and> release staging_cmd \<in> set choices
   \<and> incremented (Some (''rc.'' @ str_of_nat 0)) (''rc.'' @ str_of_nat (0 + 1))
   \<and> fst (update_version reference_env staging_cmd ''Bento007/CodeRelease'' ''integration''
             ''staging'' (start rc_0))
       = Return ''1.2.0-rc.1''"
proof -
  let ?V = "\<lparr>major = 1, minor = 2, patch = 0, prerelease = Some ''rc.0'', build = None\<rparr>"
  have h0: "stage staging_cmd \<noteq> ''prod''"
    by (simp add: staging_cmd_def)
  have h00: "''staging'' \<noteq> ''prod''"
    by simp
  have h1: "''integration'' \<noteq> ''prod''"
    by simp
  have h2: "http_get reference_env (world (start rc_0)) (releases_url ''Bento007/CodeRelease'')
              = Inr (published rc_0)"
    by (simp add: reference_env_def start_def)
  have h3: "current_of (stage staging_cmd) (published rc_0) = Inr ''1.2.0-rc.0''"
    by code_simp
  have h4: "release staging_cmd \<in> set choices"
    by (simp add: staging_cmd_def choices_def)
  have inc: "incremented (Some (''rc.'' @ str_of_nat 0)) (''rc.'' @ str_of_nat (0 + 1))"
    unfolding incremented_def option.case
    apply (rule disjI2)
    apply (rule exI [of _ "''rc.''"], rule exI [of _ 0], rule exI [of _ "[]"])
    apply (simp add: is_digit_def)
    done
  have pv: "parse ''1.2.0-rc.0'' = Inr ?V"
    by code_simp
  have br: "bump_rule ''prerelease'' ?V ''rc.1'' = ''1.2.0-rc.1''"
    by code_simp
  have rel: "release staging_cmd = ''prerelease''"
    by (simp add: staging_cmd_def)
  from update_version_bumps [OF h0 h00 h1 h2 h3 h4] obtain v where
    "parse ''1.2.0-rc.0'' = Inr v"
    and r: "\<And>label. (release staging_cmd = ''prerelease'' \<longrightarrow> incremented (prerelease v) label)
              \<Longrightarrow> fst (update_version reference_env staging_cmd ''Bento007/CodeRelease''
                        ''integration'' ''staging'' (start rc_0))
                  = (if bump_rule (release staging_cmd) v label = ''1.2.0-rc.0'' then Exit 0
                     else Return (bump_rule (release staging_cmd) v label))"
    by blast
  with pv have v: "v = ?V" by simp
  have "incremented (prerelease v) ''rc.1''"
    using inc by (simp add: v str_of_nat_0_1)
  from r [of "''rc.1''"] this rel br v
  have "fst (update_version reference_env staging_cmd ''Bento007/CodeRelease''
               ''integration'' ''staging'' (start rc_0)) = Return ''1.2.0-rc.1''"
    by simp
  with h0 h00 h1 h2 h3 h4 inc show ?thesis by blast
qed

text \<open>The prerelease bump on the examples: 1.2.0-rc.0, a two-digit successor, no label.\<close>

lemma prerelease_bump_examples:
  "bumped ''prerelease'' ''1.2.0-rc.0'' = Inr ''1.2.0-rc.1''"
  "bumped ''prerelease'' ''1.2.0-rc.9'' = Inr ''1.2.0-rc.10''"
  "bumped ''prerelease'' ''1.2.0'' = Inr ''1.2.0-rc.1''"
  by code_simp+

text \<open>
  Claim C7: when promoting into production, the next version is the latest staging
  release candidate with its prerelease label removed. The docstring has \<^verbatim>\<open>prod\<close>
  promoted from \<^verbatim>\<open>staging\<close>, but \<^verbatim>\<open>update_version\<close> finalizes only when the source
  branch is named \<^verbatim>\<open>prod\<close>; with source \<^verbatim>\<open>staging\<close> and destination \<^verbatim>\<open>prod\<close> it bumps the
  current production version instead. With the releases 1.0.0 and 1.2.0-rc.3 the command
  line \<^verbatim>\<open>promote.py prod\<close> stops at line 59, and \<^verbatim>\<open>update_version\<close> called for that
  promotion gives 1.0.0-rc.1, not 1.2.0.
\<close>

theorem prod_promotion_not_finalized:
  "fst (script reference_env prod_argv (start candidate_3)) = Exit 1
   \<and> fst (update_version reference_env prod_cmd ''Bento007/CodeRelease'' ''staging'' ''prod''
             (start candidate_3))
       = Return ''1.0.0-rc.1''"
  by code_simp

text \<open>The finalization itself, where it runs, gives the example of the specification.\<close>

lemma finalize_version_example: "finalize_version ''1.2.0-rc.3'' = Inr ''1.2.0''"
  by code_simp



text \<open>
  Claim C9: when the diff of the working tree is not empty, the program ends with exit
  status 1 before any promotion action, whatever \<^verbatim>\<open>--force\<close> says. Stated on \<^verbatim>\<open>main\<close> for
  any environment and either value \<open>f\<close> of the flag: the exit status is 1 and nothing
  but output and the one \<^verbatim>\<open>git diff\<close> has happened; when the token was found, the stage
  is configured and \<^verbatim>\<open>git diff\<close> returned 0, the run ends in \<^verbatim>\<open>exit(1)\<close> itself.
\<close>

theorem dirty_working_tree_blocks:
  assumes "run_process env working_tree_cmd (world st) = ((rc, out, err), w)"
    and "out \<noteq> []"
    and "main env (cmd_args\<lparr>force := f\<rparr>) config st = (r, st')"
  shows "exit_status r = 1
         \<and> (\<exists>es. trace st' = trace st @ es
               \<and> list_all (\<lambda>e. is_print e \<or> e = Run working_tree_cmd rc out err) es)
         \<and> ((\<exists>token. fst (resolve_token env st) = Return token)
              \<and> map_of (release_map config) (stage cmd_args) \<noteq> None \<and> rc = 0
              \<longrightarrow> r = Exit 1)"
proof -
  define G where
    "G \<longleftrightarrow> (\<exists>token. fst (resolve_token env st) = Return token)
           \<and> map_of (release_map config) (stage cmd_args) \<noteq> None \<and> rc = 0"
  define P :: "'a state \<Rightarrow> bool" where
    "P = (\<lambda>s. world s = world st \<and> appended (trace st) is_print s)"
  define R :: "unit result \<Rightarrow> 'a state \<Rightarrow> bool" where
    "R = (\<lambda>x s. exit_status x = 1
            \<and> appended (trace st) (\<lambda>e. is_print e \<or> e = Run working_tree_cmd rc out err) s
            \<and> (G \<longrightarrow> x = Exit 1))"
  have PR: "\<And>s e. P s \<Longrightarrow> \<not> G \<Longrightarrow> R (Raise e) s"
    by (auto simp: P_def R_def appended_def list_all_iff)
  have Pp: "\<And>s m. P s \<Longrightarrow> P (emit (Print m) s)"
    by (auto simp: P_def is_print_def) (simp add: emit_def)
  have token: "hoare P (resolve_token env) (\<lambda>_. P) R"
  proof (rule hoareI)
    fix s x s'
    assume "P s" and run: "resolve_token env s = (x, s')"
    then have w: "world s = world st" by (simp add: P_def)
    from resolve_token_state [OF run] have s': "s' = s" and ne: "\<forall>n. x \<noteq> Exit n" by simp_all
    from resolve_token_world [OF w, of env] run have "fst (resolve_token env st) = x" by simp
    then have "\<not> G" if "x = Raise e" for e
      using that by (simp add: G_def)
    with \<open>P s\<close> s' ne
    show "case x of Return y \<Rightarrow> P s' | Exit n \<Rightarrow> R (Exit n) s' | Raise e \<Rightarrow> R (Raise e) s'"
      by (cases x) (simp_all add: PR)
  qed
  have tree: "hoare P (check_working_tree env) (\<lambda>_ _. False) R"
    apply (rule hoareI)
    using assms(1,2)
    apply (auto simp: P_def R_def G_def check_working_tree_def subprocess_def bnd_def print_def
        run_def emit_def ret_def raise_def exit_def appended_def is_print_def list_all_iff
        split: if_splits result.splits prod.splits)
    done
  have "hoare P (main env (cmd_args\<lparr>force := f\<rparr>) config) (\<lambda>_ _. False) R"
    unfolding main_def Let_def
    apply (rule hoare_bnd [OF token])
    apply (rule hoare_bnd [where I = "\<lambda>_. P"])
     apply (cases "map_of (release_map config) (stage cmd_args)")
      apply (simp add: hoare_raise PR G_def)
     apply (simp add: hoare_ret)
    apply (rule hoare_bnd [where I = "\<lambda>_. P"])
     apply (rule hoare_print, simp add: Pp)
    apply (rule hoare_bnd [OF tree])
    apply (rule hoare_False)
    done
  moreover have "P st"
    by (simp add: P_def appended_def)
  ultimately have "R (case r of Return x \<Rightarrow> Return () | Exit n \<Rightarrow> Exit n | Raise e \<Rightarrow> Raise e) st'"
    using hoareD [of P "main env (cmd_args\<lparr>force := f\<rparr>) config" "\<lambda>_ _. False" R st r st'] assms(3)
    by (cases r) simp_all
  then show ?thesis
    by (cases r) (auto simp: R_def G_def appended_def)
qed

theorem dirty_working_tree_blocks_witness:
  "run_process reference_env working_tree_cmd (world (start dirty_repo))
     = ((0, tree_diff dirty_repo, []), dirty_repo)
   \<and> tree_diff dirty_repo \<noteq> []
   \<and> fst (main reference_env (forced_cmd\<lparr>force := True\<rparr>) pipeline (start dirty_repo)) = Exit 1
   \<and> exit_status (fst (main reference_env (forced_cmd\<lparr>force := True\<rparr>) pipeline
                        (start dirty_repo))) = 1
   \<and> (\<exists>es. trace (snd (main reference_env (forced_cmd\<lparr>force := True\<rparr>) pipeline
                         (start dirty_repo))) = trace (start dirty_repo) @ es
          \<and> list_all (\<lambda>e. is_print e
                           \<or> e = Run working_tree_cmd 0 (tree_diff dirty_repo) []) es)"
proof -
  let ?run = "main reference_env (forced_cmd\<lparr>force := True\<rparr>) pipeline (start dirty_repo)"
  have a: "run_process reference_env working_tree_cmd (world (start dirty_repo))
             = ((0, tree_diff dirty_repo, []), dirty_repo)"
    by (simp add: reference_env_def git_def start_def)
  have b: "tree_diff dirty_repo \<noteq> []"
    by (simp add: dirty_repo_def)
  have c: "fst ?run = Exit 1"
    by code_simp
  have run: "?run = (fst ?run, snd ?run)"
    by simp
  from dirty_working_tree_blocks [OF a b run] a b c
  show ?thesis by simp
qed

text \<open>
  Claim C10: the lost-commits check finds the commits of the destination that the
  source does not have and, without \<^verbatim>\<open>--force\<close>, lists them and exits with 1. The
  warning the script prints says so too, but the command it runs puts both branch names
  after \<^verbatim>\<open>--\<close>, where \<^verbatim>\<open>git log\<close> reads them as paths (and as revisions \<^verbatim>\<open>src ^dst\<close> would
  be the commits of the source missing from the destination). Run without \<^verbatim>\<open>--force\<close>
  on a repository whose \<^verbatim>\<open>staging\<close> is at a commit \<^verbatim>\<open>c3c3c3c3\<close> that \<^verbatim>\<open>integration\<close> does
  not reach: the check prints nothing, the promotion goes through and \<^verbatim>\<open>staging\<close> loses
  the commit.
\<close>

theorem lost_commit_not_detected:
  "case script reference_env staging_args (start diverged_repo) of
     (r, st) \<Rightarrow>
       r = Return ()
       \<and> \<not> arg_force staging_args
       \<and> Run (check_diff_cmd ''integration'' ''staging'') 0 [] [] \<in> set (trace st)
       \<and> map_of (origin_heads diverged_repo) ''staging'' = Some ''c3c3c3c3''
       \<and> ''c3c3c3c3'' \<notin> set (reachable (objects diverged_repo) ''b2b2b2b2'')
       \<and> map_of (origin_heads (world st)) ''staging'' = Some ''b2b2b2b2''"
  by code_simp

end
